theory Spec2Isabelle
  imports Complex_Main "HOL-Library.Multiset" "HOL-Library.Log_Nat"
begin

section \<open>Data model of \<^verbatim>\<open>main.go\<close>\<close>

text \<open>
  The source computes with \<^verbatim>\<open>float64\<close>. A value of that type is modelled by the real
  number it denotes; NaN and the infinities have no counterpart. The arithmetic of the
  planner is given twice. In the section on the Segment Planner the operations are exact:
  that is the planner as an algorithm, and it serves for the decisions of the walk, the
  order of the segments and their names. In the section on the planner in binary64
  arithmetic every operation is rounded as the machine rounds it, and the lengths of the
  parts that the bounding pass cuts are settled there.
  Go's \<^verbatim>\<open>int\<close> is modelled as \<open>int\<close>, a slice length as \<open>nat\<close>.
\<close>

type_synonym float64 = real

record AudioSegment =
  StartTime :: float64
  EndTime :: float64
  Filename :: string
  FilePath :: string
  Duration :: float64

record TranscriptionResult =
  Segment :: AudioSegment
  Text :: string
  Error :: string

record AudioAnalyzer =
  InputFile :: string
  OutputDir :: string
  MaxWorkers :: int
  SilenceThreshold :: string
  SilenceDuration :: string
  MinSegmentDuration :: float64
  MaxSegmentDuration :: float64

text \<open>
  \<^verbatim>\<open>NewAudioAnalyzer\<close>: the worker count is the constant 1 whatever the number of
  cores is (\<^verbatim>\<open>maxWorkers := 1\<close>, and the test \<^verbatim>\<open>maxWorkers < 3\<close> sets it to 1 again).
\<close>

definition NewAudioAnalyzer :: "string \<Rightarrow> string \<Rightarrow> AudioAnalyzer" where
  "NewAudioAnalyzer inputFile outputDir =
     (let maxWorkers = (1::int);
          maxWorkers = (if maxWorkers < 3 then 1 else maxWorkers)
      in \<lparr>InputFile = inputFile, OutputDir = outputDir, MaxWorkers = maxWorkers,
          SilenceThreshold = ''-30dB'', SilenceDuration = ''5'',
          MinSegmentDuration = 30, MaxSegmentDuration = 60\<rparr>)"

section \<open>Library functions the source calls\<close>

text \<open>
  \<^verbatim>\<open>fmt.Sprintf\<close> with the verbs the source uses. \<^verbatim>\<open>%03d\<close> writes a non-negative
  integer in decimal, padded with zeros to three digits. \<^verbatim>\<open>%.1f\<close> writes a number with
  one digit after the point, rounded to the nearest tenth, a tie going to the even digit.
\<close>

definition digit :: "nat \<Rightarrow> char" where
  "digit d = ''0123456789'' ! (d mod 10)"

fun decimal :: "nat \<Rightarrow> string" where
  "decimal n = (if n < 10 then [digit n] else decimal (n div 10) @ [digit (n mod 10)])"

declare decimal.simps [simp del]

definition fmt_03d :: "nat \<Rightarrow> string" where
  "fmt_03d n = (let s = decimal n in replicate (3 - length s) (CHR ''0'') @ s)"

definition round_half_even :: "real \<Rightarrow> int" where
  "round_half_even y =
     (let f = \<lfloor>y\<rfloor>; d = y - of_int f
      in if d < 1/2 then f else if 1/2 < d then f + 1 else if even f then f else f + 1)"

definition fmt_f1 :: "float64 \<Rightarrow> string" where
  "fmt_f1 x =
     (let t = round_half_even (\<bar>x\<bar> * 10)
      in (if x < 0 then ''-'' else '''') @ decimal (nat (t div 10)) @ ''.'' @ [digit (nat (t mod 10))])"

text \<open>
  \<^verbatim>\<open>filepath.Join\<close> cleans and joins two path elements with the separator of the
  operating system. Its result is never inspected by the program, so it is a parameter of
  the model: every function that builds a segment takes the join function \<open>jn\<close>.
\<close>

type_synonym joiner = "string \<Rightarrow> string \<Rightarrow> string"

section \<open>The Segment Planner\<close>

text \<open>\<^verbatim>\<open>createSegment\<close> (lines 166-177).\<close>

definition createSegment :: "joiner \<Rightarrow> AudioAnalyzer \<Rightarrow> float64 \<Rightarrow> float64 \<Rightarrow> nat \<Rightarrow> AudioSegment" where
  "createSegment jn a start end' index =
     (let filename = ''segment_'' @ fmt_03d index @ ''_'' @ fmt_f1 start @ ''-'' @ fmt_f1 end' @ ''.wav'';
          filePath = jn (OutputDir a) filename
      in \<lparr>StartTime = start, EndTime = end', Filename = filename, FilePath = filePath,
          Duration = end' - start\<rparr>)"

text \<open>
  The conversion \<^verbatim>\<open>int(x)\<close> of a float truncates towards zero.
\<close>

definition go_int :: "float64 \<Rightarrow> int" where
  "go_int x = (if 0 \<le> x then \<lfloor>x\<rfloor> else \<lceil>x\<rceil>)"

text \<open>
  \<^verbatim>\<open>splitLongSegments\<close> (lines 180-205). \<open>splitInner\<close> is the inner loop over \<open>i\<close>
  (lines 191-200), \<open>splitBody\<close> the body of the outer loop for one segment (lines 184-201),
  \<open>splitOuter\<close> the outer loop; \<open>result\<close> is the slice being appended to.
\<close>

function splitInner ::
  "joiner \<Rightarrow> AudioAnalyzer \<Rightarrow> AudioSegment \<Rightarrow> int \<Rightarrow> float64 \<Rightarrow> int \<Rightarrow> AudioSegment list \<Rightarrow> AudioSegment list" where
  "splitInner jn a segment numSplits splitDuration i result =
     (if i < numSplits then
        (let start = StartTime segment + of_int i * splitDuration;
             end' = StartTime segment + of_int (i + 1) * splitDuration;
             end' = (if i = numSplits - 1 then EndTime segment else end');
             splitSegment = createSegment jn a start end' (length result)
         in splitInner jn a segment numSplits splitDuration (i + 1) (result @ [splitSegment]))
      else result)"
  by pat_completeness auto
termination
  by (relation "measure (\<lambda>(jn, a, segment, numSplits, splitDuration, i, result). nat (numSplits - i))") auto

declare splitInner.simps [simp del]

definition splitBody :: "joiner \<Rightarrow> AudioAnalyzer \<Rightarrow> AudioSegment \<Rightarrow> AudioSegment list \<Rightarrow> AudioSegment list" where
  "splitBody jn a segment result =
     (if Duration segment \<le> MaxSegmentDuration a then result @ [segment]
      else
        (let numSplits = go_int (Duration segment / MaxSegmentDuration a) + 1;
             splitDuration = Duration segment / of_int numSplits
         in splitInner jn a segment numSplits splitDuration 0 result))"

fun splitOuter :: "joiner \<Rightarrow> AudioAnalyzer \<Rightarrow> AudioSegment list \<Rightarrow> AudioSegment list \<Rightarrow> AudioSegment list" where
  "splitOuter jn a [] result = result"
| "splitOuter jn a (segment # segments) result = splitOuter jn a segments (splitBody jn a segment result)"

definition splitLongSegments :: "joiner \<Rightarrow> AudioAnalyzer \<Rightarrow> AudioSegment list \<Rightarrow> AudioSegment list" where
  "splitLongSegments jn a segments = splitOuter jn a segments []"

text \<open>
  \<^verbatim>\<open>CreateSegments\<close> (lines 128-163). The two subprocess calls \<^verbatim>\<open>DetectSilence\<close> and
  \<^verbatim>\<open>GetAudioDuration\<close> are inputs of the model: each is either an error message or a
  value. \<open>planWalk\<close> is the loop over the silence points (lines 145-151), with the slice
  \<open>segments\<close> and the variable \<open>currentStart\<close> as its state; \<open>rawSegments\<close> is the plan
  before the bounding pass (lines 142-157).
\<close>

fun planWalk ::
  "joiner \<Rightarrow> AudioAnalyzer \<Rightarrow> float64 list \<Rightarrow> AudioSegment list \<Rightarrow> float64 \<Rightarrow> AudioSegment list \<times> float64" where
  "planWalk jn a [] segments currentStart = (segments, currentStart)"
| "planWalk jn a (silenceEnd # silencePoints) segments currentStart =
     (if silenceEnd - currentStart \<ge> 10
      then planWalk jn a silencePoints
             (segments @ [createSegment jn a currentStart silenceEnd (length segments)]) silenceEnd
      else planWalk jn a silencePoints segments currentStart)"

definition rawSegments :: "joiner \<Rightarrow> AudioAnalyzer \<Rightarrow> float64 list \<Rightarrow> float64 \<Rightarrow> AudioSegment list" where
  "rawSegments jn a silencePoints totalDuration =
     (let (segments, currentStart) = planWalk jn a silencePoints [] 0
      in if totalDuration - currentStart \<ge> 10
         then segments @ [createSegment jn a currentStart totalDuration (length segments)]
         else segments)"

definition CreateSegments ::
  "joiner \<Rightarrow> AudioAnalyzer \<Rightarrow> string + float64 list \<Rightarrow> string + float64 \<Rightarrow> string + AudioSegment list" where
  "CreateSegments jn a detectSilence getAudioDuration =
     (case detectSilence of
        Inl err \<Rightarrow> Inl err
      | Inr silencePoints \<Rightarrow>
          (case getAudioDuration of
             Inl err \<Rightarrow> Inl err
           | Inr totalDuration \<Rightarrow>
               Inr (splitLongSegments jn a (rawSegments jn a silencePoints totalDuration))))"


text \<open>
  The planner as the specification words it (section 4.1, steps 1 to 4), on intervals:
  walk the candidate boundaries from \<open>currentStart\<close>, close \<open>[currentStart, b)\<close> when
  \<open>b - currentStart \<ge> minGap\<close> and move \<open>currentStart\<close> to \<open>b\<close>, skip \<open>b\<close> otherwise, and
  after the last boundary close \<open>[currentStart, totalDuration)\<close> when
  \<open>totalDuration - currentStart \<ge> minGap\<close>.
\<close>

fun spec_walk :: "real \<Rightarrow> real \<Rightarrow> real list \<Rightarrow> real \<Rightarrow> (real \<times> real) list" where
  "spec_walk minGap currentStart [] totalDuration =
     (if totalDuration - currentStart \<ge> minGap then [(currentStart, totalDuration)] else [])"
| "spec_walk minGap currentStart (b # bs) totalDuration =
     (if b - currentStart \<ge> minGap then (currentStart, b) # spec_walk minGap b bs totalDuration
      else spec_walk minGap currentStart bs totalDuration)"

definition interval :: "AudioSegment \<Rightarrow> real \<times> real" where
  "interval s = (StartTime s, EndTime s)"

text \<open>
  One pass of the inner loop of \<^verbatim>\<open>splitLongSegments\<close> builds \<open>subSegment\<close>; \<open>numParts\<close>
  and \<open>partWidth\<close> are the values of \<^verbatim>\<open>numSplits\<close> and \<^verbatim>\<open>splitDuration\<close> for a segment
  longer than the maximum.
\<close>

definition subSegment ::
  "joiner \<Rightarrow> AudioAnalyzer \<Rightarrow> AudioSegment \<Rightarrow> int \<Rightarrow> float64 \<Rightarrow> int \<Rightarrow> nat \<Rightarrow> AudioSegment" where
  "subSegment jn a segment numSplits splitDuration i index =
     createSegment jn a (StartTime segment + of_int i * splitDuration)
       (if i = numSplits - 1 then EndTime segment
        else StartTime segment + of_int (i + 1) * splitDuration) index"

definition numParts :: "AudioAnalyzer \<Rightarrow> AudioSegment \<Rightarrow> nat" where
  "numParts a seg = nat (\<lfloor>Duration seg / MaxSegmentDuration a\<rfloor> + 1)"

definition partWidth :: "AudioAnalyzer \<Rightarrow> AudioSegment \<Rightarrow> real" where
  "partWidth a seg = Duration seg / real (numParts a seg)"

text \<open>A segment of the data model: it ends after it starts and its duration is its length.\<close>

definition wellFormed :: "AudioSegment \<Rightarrow> bool" where
  "wellFormed s = (StartTime s < EndTime s \<and> Duration s = EndTime s - StartTime s)"

text \<open>A joiner for the examples: the two elements with a slash between them.\<close>

definition slashJoin :: joiner where
  "slashJoin dir file = dir @ ''/'' @ file"

section \<open>The Silence Detector's parser\<close>

text \<open>
  \<^verbatim>\<open>strings.Split(s, "\n")\<close>, \<^verbatim>\<open>strings.Contains\<close>, \<^verbatim>\<open>strings.Fields\<close> and
  \<^verbatim>\<open>strings.TrimSpace\<close>. White space is the six ASCII characters tab, line feed, vertical
  tab, form feed, carriage return and space; the white space of Unicode beyond ASCII is
  not modelled.
\<close>

fun strings_Split :: "string \<Rightarrow> char \<Rightarrow> string list" where
  "strings_Split [] sep = [[]]"
| "strings_Split (c # s) sep =
     (if c = sep then [] # strings_Split s sep
      else (case strings_Split s sep of [] \<Rightarrow> [[c]] | l # ls \<Rightarrow> (c # l) # ls))"

fun strings_Contains :: "string \<Rightarrow> string \<Rightarrow> bool" where
  "strings_Contains [] substr = (substr = [])"
| "strings_Contains (c # s) substr =
     (take (length substr) (c # s) = substr \<or> strings_Contains s substr)"

definition isSpace :: "char \<Rightarrow> bool" where
  "isSpace c = (c \<in> set [CHR 0x09, CHR 0x0A, CHR 0x0B, CHR 0x0C, CHR 0x0D, CHR '' ''])"

fun fieldsFrom :: "string \<Rightarrow> string \<Rightarrow> string list" where
  "fieldsFrom cur [] = (if cur = [] then [] else [cur])"
| "fieldsFrom cur (c # s) =
     (if isSpace c then (if cur = [] then fieldsFrom [] s else cur # fieldsFrom [] s)
      else fieldsFrom (cur @ [c]) s)"

definition strings_Fields :: "string \<Rightarrow> string list" where
  "strings_Fields s = fieldsFrom [] s"

definition strings_TrimSpace :: "string \<Rightarrow> string" where
  "strings_TrimSpace s = rev (dropWhile isSpace (rev (dropWhile isSpace s)))"

text \<open>
  \<^verbatim>\<open>parseSilenceOutput\<close> (lines 84-103). \<^verbatim>\<open>strconv.ParseFloat(s, 64)\<close> is the parameter
  \<open>pf\<close>: \<open>None\<close> when it returns an error. \<open>partsLoop\<close> is the loop over the indices of
  \<^verbatim>\<open>parts\<close>, \<open>linesLoop\<close> the loop over the lines. The function returns the slice and the
  error, which is \<open>None\<close> for \<^verbatim>\<open>nil\<close>.
\<close>

type_synonym parser = "string \<Rightarrow> float64 option"

fun partsLoop :: "parser \<Rightarrow> string list \<Rightarrow> nat list \<Rightarrow> float64 list \<Rightarrow> float64 list" where
  "partsLoop pf parts [] silencePoints = silencePoints"
| "partsLoop pf parts (i # is) silencePoints =
     (if parts ! i = ''silence_end:'' \<and> i + 1 < length parts then
        (let timeStr = strings_TrimSpace (parts ! (i + 1))
         in case pf timeStr of
              Some time \<Rightarrow> partsLoop pf parts is (silencePoints @ [time])
            | None \<Rightarrow> partsLoop pf parts is silencePoints)
      else partsLoop pf parts is silencePoints)"

fun linesLoop :: "parser \<Rightarrow> string list \<Rightarrow> float64 list \<Rightarrow> float64 list" where
  "linesLoop pf [] silencePoints = silencePoints"
| "linesLoop pf (line # lines) silencePoints =
     (if strings_Contains line ''silence_end'' then
        (let parts = strings_Fields line
         in linesLoop pf lines (partsLoop pf parts [0..<length parts] silencePoints))
      else linesLoop pf lines silencePoints)"

definition parseSilenceOutput :: "parser \<Rightarrow> string \<Rightarrow> float64 list \<times> string option" where
  "parseSilenceOutput pf output =
     (let lines = strings_Split output (CHR 0x0A)
      in (linesLoop pf lines [], None))"

text \<open>
  The parser in the words of the specification: on each line, the tokens that follow a
  \<^verbatim>\<open>silence_end:\<close> token, those that parse, in their order of appearance.
\<close>

fun tokensAfter :: "string \<Rightarrow> string list \<Rightarrow> string list" where
  "tokensAfter key (p # q # ps) =
     (if p = key then q # tokensAfter key (q # ps) else tokensAfter key (q # ps))"
| "tokensAfter key ps = []"

definition spec_parse :: "parser \<Rightarrow> string \<Rightarrow> float64 list" where
  "spec_parse pf output =
     List.map_filter pf
       (concat (map (\<lambda>line. tokensAfter ''silence_end:'' (strings_Fields line))
                    (strings_Split output (CHR 0x0A))))"


section \<open>The environment of the pipeline\<close>

text \<open>
  What the subprocesses and the file system answer is the environment \<open>Env\<close>; a Go
  \<^verbatim>\<open>error\<close> is its message, \<open>None\<close> for \<^verbatim>\<open>nil\<close>.
  \<^item> \<open>os_MkdirAll\<close>: the error of \<^verbatim>\<open>os.MkdirAll\<close> on a directory;
  \<^item> \<open>ffmpeg_extract\<close>: the error of \<^verbatim>\<open>cmd.Run\<close> in \<^verbatim>\<open>extractSingleSegment\<close>;
  \<^item> \<open>mainExe_missing\<close>: whether \<^verbatim>\<open>os.Stat\<close> reports that
    \<^verbatim>\<open>./whisper.cpp/build/bin/Release/main.exe\<close> does not exist;
  \<^item> \<open>whisper\<close>: output and error of \<^verbatim>\<open>cmd.CombinedOutput\<close> for the engine
    \<^verbatim>\<open>whisper-cli.exe\<close>, for the goroutine of a slot and its segment. The command line is
    built from the segment's path and the duration that \<^verbatim>\<open>GetAudioDuration\<close> probes
    (whose error the source ignores), so the answer covers both calls;
  \<^item> \<open>json_MarshalIndent\<close>: the error or the bytes of \<^verbatim>\<open>json.MarshalIndent\<close>;
  \<^item> \<open>os_WriteFile\<close>: the error of \<^verbatim>\<open>os.WriteFile\<close> for a path and a content.
  Every subprocess call is taken to return.
\<close>

record Env =
  os_MkdirAll :: "string \<Rightarrow> string option"
  ffmpeg_extract :: "AudioSegment \<Rightarrow> string option"
  mainExe_missing :: bool
  whisper :: "nat \<Rightarrow> AudioSegment \<Rightarrow> string \<times> string option"
  json_MarshalIndent :: "TranscriptionResult list \<Rightarrow> string + string"
  os_WriteFile :: "string \<Rightarrow> string \<Rightarrow> string option"

text \<open>
  How a call ends: it returns a value, or the process stops. \<open>Exit\<close> is \<^verbatim>\<open>log.Fatal\<close>
  (the message is logged and the process exits with status 1), \<open>Panic\<close> a run-time panic,
  \<open>Blocked\<close> the state in which every goroutine waits forever.
\<close>

datatype 'a run = Returns 'a | Exit | Panic | Blocked

section \<open>The Segment Extractor\<close>

text \<open>\<^verbatim>\<open>extractSingleSegment\<close> (lines 236-250).\<close>

definition extractSingleSegment :: "Env \<Rightarrow> AudioAnalyzer \<Rightarrow> AudioSegment \<Rightarrow> string option" where
  "extractSingleSegment env a segment =
     (case ffmpeg_extract env segment of
        Some err \<Rightarrow> Some (''ffmpeg extraction failed: '' @ err)
      | None \<Rightarrow> None)"

text \<open>
  \<^verbatim>\<open>ExtractAudioSegments\<close> (lines 208-233). One goroutine is started per segment; each
  takes a slot of the semaphore, a channel of capacity \<^verbatim>\<open>MaxWorkers\<close>, before it works.
  The goroutines share nothing but the log, so a run is the order \<open>sched\<close> in which their
  bodies take effect: a permutation of the segments paired with their positions. A
  negative capacity makes \<^verbatim>\<open>make\<close> panic; with capacity 0 no goroutine ever gets a slot.
  The result is the returned error and the lines logged.
\<close>

definition extractGoroutine :: "Env \<Rightarrow> AudioAnalyzer \<Rightarrow> AudioSegment \<Rightarrow> string list" where
  "extractGoroutine env a seg =
     (case extractSingleSegment env a seg of
        Some err \<Rightarrow> [''Failed to extract segment '' @ Filename seg @ '': '' @ err]
      | None \<Rightarrow> [])"

definition ExtractAudioSegments ::
  "Env \<Rightarrow> AudioAnalyzer \<Rightarrow> (nat \<times> AudioSegment) list \<Rightarrow> AudioSegment list \<Rightarrow> (string option \<times> string list) run" where
  "ExtractAudioSegments env a sched segments =
     (case os_MkdirAll env (OutputDir a) of
        Some err \<Rightarrow> Returns (Some (''failed to create output directory: '' @ err), [])
      | None \<Rightarrow>
          if MaxWorkers a < 0 then Panic
          else if MaxWorkers a = 0 \<and> segments \<noteq> [] then Blocked
          else Returns (None, concat (map (\<lambda>(index, seg). extractGoroutine env a seg) sched)))"

section \<open>The Transcription Dispatcher\<close>

text \<open>
  \<^verbatim>\<open>transcribeCpp\<close> (lines 290-320), for the goroutine of slot \<open>index\<close>. It returns the
  pair of Go: the text and the error.
\<close>

definition transcribeCpp :: "Env \<Rightarrow> nat \<Rightarrow> AudioSegment \<Rightarrow> (string \<times> string option) run" where
  "transcribeCpp env index segment =
     (if mainExe_missing env then Exit
      else
        (let (output, err) = whisper env index segment
         in case err of
              Some e \<Rightarrow>
                Returns ([], Some (''C++ whisper transcription failed: '' @ e @ [CHR 0x0A] @ output))
            | None \<Rightarrow> Returns (strings_TrimSpace output, None)))"

text \<open>
  \<^verbatim>\<open>ProcessWithCpp\<close> (lines 253-288). \<open>zeroResult\<close> is the zero value that
  \<^verbatim>\<open>make\<close> fills the slice with. \<open>goroutine\<close> is the body of the function literal (lines
  265-276) acting on the shared slice \<open>results\<close>; \<open>runGoroutines\<close> lets the bodies take
  effect in the order \<open>sched\<close>, as in the extractor. \<^verbatim>\<open>sort.Slice\<close> is the parameter
  \<open>srt\<close>: the library promises a sorted permutation and no stability
  (\<open>sort_Slice_contract\<close>), and the program compares start times (\<open>byStart\<close>).
\<close>

definition zeroSegment :: AudioSegment where
  "zeroSegment = \<lparr>StartTime = 0, EndTime = 0, Filename = [], FilePath = [], Duration = 0\<rparr>"

definition zeroResult :: TranscriptionResult where
  "zeroResult = \<lparr>Segment = zeroSegment, Text = [], Error = []\<rparr>"

definition goroutine ::
  "Env \<Rightarrow> AudioAnalyzer \<Rightarrow> nat \<times> AudioSegment \<Rightarrow> TranscriptionResult list \<Rightarrow> TranscriptionResult list run" where
  "goroutine env a g results =
     (let (index, seg) = g
      in case transcribeCpp env index seg of
           Returns (text, err) \<Rightarrow>
             (let result = \<lparr>Segment = seg, Text = [], Error = []\<rparr>;
                  result = (case err of
                              Some e \<Rightarrow> result\<lparr>Error := e\<rparr>
                            | None \<Rightarrow> result\<lparr>Text := text\<rparr>)
              in Returns (results[index := result]))
         | Exit \<Rightarrow> Exit
         | Panic \<Rightarrow> Panic
         | Blocked \<Rightarrow> Blocked)"

fun runGoroutines ::
  "Env \<Rightarrow> AudioAnalyzer \<Rightarrow> (nat \<times> AudioSegment) list \<Rightarrow> TranscriptionResult list \<Rightarrow> TranscriptionResult list run" where
  "runGoroutines env a [] results = Returns results"
| "runGoroutines env a (g # gs) results =
     (case goroutine env a g results of
        Returns results' \<Rightarrow> runGoroutines env a gs results'
      | Exit \<Rightarrow> Exit
      | Panic \<Rightarrow> Panic
      | Blocked \<Rightarrow> Blocked)"

definition byStart :: "TranscriptionResult \<Rightarrow> TranscriptionResult \<Rightarrow> bool" where
  "byStart r s = (StartTime (Segment r) < StartTime (Segment s))"

definition sort_Slice_contract :: "('a \<Rightarrow> 'a \<Rightarrow> bool) \<Rightarrow> ('a list \<Rightarrow> 'a list) \<Rightarrow> bool" where
  "sort_Slice_contract lt srt =
     (\<forall>xs. mset (srt xs) = mset xs \<and> sorted_wrt (\<lambda>x y. \<not> lt y x) (srt xs))"

type_synonym sorter = "TranscriptionResult list \<Rightarrow> TranscriptionResult list"

definition ProcessWithCpp ::
  "sorter \<Rightarrow> Env \<Rightarrow> AudioAnalyzer \<Rightarrow> (nat \<times> AudioSegment) list \<Rightarrow> AudioSegment list
     \<Rightarrow> (TranscriptionResult list \<times> string option) run" where
  "ProcessWithCpp srt env a sched segments =
     (let results = replicate (length segments) zeroResult
      in if MaxWorkers a < 0 then Panic
         else if MaxWorkers a = 0 \<and> segments \<noteq> [] then Blocked
         else (case runGoroutines env a sched results of
                 Returns results \<Rightarrow> Returns (srt results, None)
               | Exit \<Rightarrow> Exit
               | Panic \<Rightarrow> Panic
               | Blocked \<Rightarrow> Blocked))"

text \<open>
  The schedules of a plan: the goroutines are started with the pairs \<open>(i, segment)\<close> of
  the \<^verbatim>\<open>range\<close> loop, and each of them runs once.
\<close>

definition schedules :: "AudioSegment list \<Rightarrow> (nat \<times> AudioSegment) list \<Rightarrow> bool" where
  "schedules segments sched = (mset sched = mset (enumerate 0 segments))"

text \<open>What the goroutine of a slot writes into the slot, when the engine was called.\<close>

definition slotResult :: "Env \<Rightarrow> nat \<Rightarrow> AudioSegment \<Rightarrow> TranscriptionResult" where
  "slotResult env index seg =
     (case snd (whisper env index seg) of
        Some e \<Rightarrow> \<lparr>Segment = seg, Text = [],
                   Error = ''C++ whisper transcription failed: '' @ e @ [CHR 0x0A] @ fst (whisper env index seg)\<rparr>
      | None \<Rightarrow> \<lparr>Segment = seg, Text = strings_TrimSpace (fst (whisper env index seg)), Error = []\<rparr>)"

text \<open>A function that keeps the contract of \<^verbatim>\<open>sort.Slice\<close>, for the examples: an insertion sort.\<close>

definition stableSort :: sorter where
  "stableSort rs = sort_key (\<lambda>r. StartTime (Segment r)) rs"

section \<open>The Result Assembler's report\<close>

text \<open>
  \<^verbatim>\<open>OutputResults\<close> (lines 357-399). \<open>textLine\<close> is what one pass of the loop at lines
  373-381 writes to the builder, \<open>textLoop\<close> that loop. What goes to the console is a
  list of \<open>printed\<close> items: \<open>Literal s\<close> for a call whose output is \<open>s\<close>, and
  \<open>Format f\<close> for \<^verbatim>\<open>fmt.Printf(f)\<close>, where \<open>f\<close> is used as the format and there are no
  operands (line 394). \<open>bom\<close> is the three bytes of the code point FEFF in UTF-8. The
  result is the files written, in order, the console output and the returned error.
\<close>

datatype printed = Literal string | Format string

record Report =
  written :: "(string \<times> string) list"
  console :: "printed list"
  returned :: "string option"

definition bom :: string where
  "bom = [CHR 0xEF, CHR 0xBB, CHR 0xBF]"

definition stamp :: "TranscriptionResult \<Rightarrow> string" where
  "stamp r = ''['' @ fmt_f1 (StartTime (Segment r)) @ ''s-'' @ fmt_f1 (EndTime (Segment r)) @ ''s] ''"

definition textLine :: "TranscriptionResult \<Rightarrow> string" where
  "textLine result =
     (if Error result \<noteq> [] then stamp result @ ''ERROR: '' @ Error result @ [CHR 0x0A]
      else stamp result @ Text result @ [CHR 0x0A])"

fun textLoop :: "TranscriptionResult list \<Rightarrow> string \<Rightarrow> string" where
  "textLoop [] textBuilder = textBuilder"
| "textLoop (result # results) textBuilder = textLoop results (textBuilder @ textLine result)"

definition consoleItem :: "TranscriptionResult \<Rightarrow> printed" where
  "consoleItem result =
     (if Error result \<noteq> [] then Literal (stamp result @ ''ERROR: '' @ Error result @ [CHR 0x0A])
      else Format (Text result))"

definition OutputResults :: "joiner \<Rightarrow> Env \<Rightarrow> AudioAnalyzer \<Rightarrow> TranscriptionResult list \<Rightarrow> Report" where
  "OutputResults jn env a results =
     (let jsonFile = jn (OutputDir a) ''transcription_results.json''
      in case json_MarshalIndent env results of
           Inl err \<Rightarrow> \<lparr>written = [], console = [], returned = Some (''failed to marshal JSON: '' @ err)\<rparr>
         | Inr jsonData \<Rightarrow>
             (case os_WriteFile env jsonFile jsonData of
                Some err \<Rightarrow>
                  \<lparr>written = [], console = [], returned = Some (''failed to write JSON file: '' @ err)\<rparr>
              | None \<Rightarrow>
                  (let txtFile = jn (OutputDir a) ''transcription_results.txt'';
                       text = textLoop results bom
                   in case os_WriteFile env txtFile text of
                        Some err \<Rightarrow>
                          \<lparr>written = [(jsonFile, jsonData)], console = [],
                           returned = Some (''failed to write text file: '' @ err)\<rparr>
                      | None \<Rightarrow>
                          \<lparr>written = [(jsonFile, jsonData), (txtFile, text)],
                           console = Literal ([CHR 0x0A] @ ''=== Transcription Results ==='' @ [CHR 0x0A])
                                       # map consoleItem results,
                           returned = None\<rparr>)))"

text \<open>
  The characters a list of printed items puts on the console. A format without a percent
  sign is written as it is; what \<^verbatim>\<open>Printf\<close> makes of a percent sign without operands is
  not modelled, and the rendering is \<open>None\<close> then.
\<close>

fun rendered :: "printed list \<Rightarrow> string option" where
  "rendered [] = Some []"
| "rendered (Literal s # ps) = map_option (\<lambda>t. s @ t) (rendered ps)"
| "rendered (Format f # ps) =
     (if CHR ''%'' \<in> set f then None else map_option (\<lambda>t. f @ t) (rendered ps))"

text \<open>The part of a report line after the time stamp, without the line feed.\<close>

definition payload :: "TranscriptionResult \<Rightarrow> string" where
  "payload r = (if Error r \<noteq> [] then ''ERROR: '' @ Error r else Text r)"

text \<open>An environment for the examples: every call succeeds, the engine answers \<open>hello\<close>.\<close>

definition quietEnv :: Env where
  "quietEnv = \<lparr>os_MkdirAll = (\<lambda>dir. None), ffmpeg_extract = (\<lambda>seg. None), mainExe_missing = False,
               whisper = (\<lambda>index seg. (''hello'', None)),
               json_MarshalIndent = (\<lambda>results. Inr ''[]''),
               os_WriteFile = (\<lambda>path content. None)\<rparr>"

text \<open>The analyzer of the examples, as \<^verbatim>\<open>main\<close> builds it.\<close>

definition demoAnalyzer :: AudioAnalyzer where
  "demoAnalyzer = NewAudioAnalyzer ''in.wav'' ''out''"

text \<open>
  Environments for the examples: in \<open>noEngineEnv\<close> the file \<^verbatim>\<open>main.exe\<close> is missing; in
  \<open>staleEnv\<close> every extraction fails and the engine still answers, as it does when a file
  of an earlier run lies at the segment's path; in \<open>failingEnv\<close> the engine fails on the
  segment of slot 1.
\<close>

definition noEngineEnv :: Env where
  "noEngineEnv = quietEnv\<lparr>mainExe_missing := True\<rparr>"

definition staleEnv :: Env where
  "staleEnv = quietEnv\<lparr>ffmpeg_extract := (\<lambda>seg. Some ''exit status 1'')\<rparr>"

definition failingEnv :: Env where
  "failingEnv = quietEnv\<lparr>whisper := (\<lambda>index seg.
     if index = 1 then (''no input'', Some ''exit status 1'') else (''hello'', None))\<rparr>"

text \<open>Plans for the examples: one in ascending order of start time, one not.\<close>

definition ascendingPlan :: "AudioSegment list" where
  "ascendingPlan = [createSegment slashJoin demoAnalyzer 0 10 0, createSegment slashJoin demoAnalyzer 10 20 1]"

definition descendingPlan :: "AudioSegment list" where
  "descendingPlan = [createSegment slashJoin demoAnalyzer 10 20 0, createSegment slashJoin demoAnalyzer 0 10 1]"

text \<open>
  Result collections for the examples: what the slots of \<open>ascendingPlan\<close> hold when every
  invocation succeeds, and when the engine fails on slot 1.
\<close>

definition quietResults :: "TranscriptionResult list" where
  "quietResults = map (\<lambda>(i, seg). slotResult quietEnv i seg) (enumerate 0 ascendingPlan)"

definition failingResults :: "TranscriptionResult list" where
  "failingResults = map (\<lambda>(i, seg). slotResult failingEnv i seg) (enumerate 0 ascendingPlan)"

text \<open>
  A parser and a text for the examples. The parser accepts two numerals; the text has a
  line of the silence filter, a line with a token that does not parse, and a
  \<^verbatim>\<open>silence_end:\<close> that ends its line.
\<close>

definition demoParser :: parser where
  "demoParser s = (if s = ''12.5'' then Some 12.5 else if s = ''40'' then Some 40 else None)"

definition demoOutput :: string where
  "demoOutput =
     ''[silencedetect @ 0x1] silence_end: 12.5 | silence_duration: 5.1'' @ [CHR 0x0A] @
     ''silence_end: abc silence_end: 40'' @ [CHR 0x0A] @
     ''size=N/A silence_end:'' @ [CHR 0x0A] @ ''40''"

section \<open>The Segment Planner in binary64 arithmetic\<close>

text \<open>
  Every arithmetic operation of the source on \<^verbatim>\<open>float64\<close> returns the binary64 number
  nearest to the exact result, a tie going to the even significand. \<open>fl64\<close> is that
  rounding, on real numbers: \<open>exponentOf x\<close> is the \<open>e\<close> with \<open>2 ^ e \<le> x < 2 ^ (e + 1)\<close> for
  a positive \<open>x\<close>, a binary64 number with that exponent is a multiple of
  \<open>2 ^ (e - 52)\<close>, the spacing \<open>ulp64 x\<close>, and below \<open>2 ^ -1022\<close> the spacing stays
  \<open>2 ^ -1074\<close>. A result beyond the
  largest finite number is an infinity in the program and has no counterpart here; the
  operations are taken one by one, not fused.
\<close>

definition pow2 :: "int \<Rightarrow> real" where
  "pow2 e = (if 0 \<le> e then 2 ^ nat e else 1 / 2 ^ nat (- e))"

definition exponentOf :: "real \<Rightarrow> int" where
  "exponentOf x =
     (if 1 \<le> x then bitlen \<lfloor>x\<rfloor> - 1
      else (let k = bitlen \<lfloor>1 / x\<rfloor> - 1
            in if x * 2 ^ nat k = 1 then - k else - k - 1))"

definition ulp64 :: "real \<Rightarrow> real" where
  "ulp64 x = pow2 (max (exponentOf \<bar>x\<bar>) (- 1022) - 52)"

definition fl64 :: "real \<Rightarrow> float64" where
  "fl64 x = (if x = 0 then 0 else of_int (round_half_even (x / ulp64 x)) * ulp64 x)"

text \<open>
  The planner with each operation rounded. \<open>createSegment64\<close> is \<^verbatim>\<open>createSegment\<close>
  (lines 166-177), \<open>splitInner64\<close>, \<open>splitBody64\<close>, \<open>splitOuter64\<close> and
  \<open>splitLongSegments64\<close> are \<^verbatim>\<open>splitLongSegments\<close> (lines 180-205), \<open>planWalk64\<close>,
  \<open>rawSegments64\<close> and \<open>CreateSegments64\<close> are \<^verbatim>\<open>CreateSegments\<close> (lines 128-163), as in
  the section on the planner. \<^verbatim>\<open>float64(i)\<close> rounds the integer, \<^verbatim>\<open>int(x)\<close> truncates;
  the constants 10 and 0 are binary64 numbers.
\<close>

definition createSegment64 :: "joiner \<Rightarrow> AudioAnalyzer \<Rightarrow> float64 \<Rightarrow> float64 \<Rightarrow> nat \<Rightarrow> AudioSegment" where
  "createSegment64 jn a start end' index =
     (let filename = ''segment_'' @ fmt_03d index @ ''_'' @ fmt_f1 start @ ''-'' @ fmt_f1 end' @ ''.wav'';
          filePath = jn (OutputDir a) filename
      in \<lparr>StartTime = start, EndTime = end', Filename = filename, FilePath = filePath,
          Duration = fl64 (end' - start)\<rparr>)"

function splitInner64 ::
  "joiner \<Rightarrow> AudioAnalyzer \<Rightarrow> AudioSegment \<Rightarrow> int \<Rightarrow> float64 \<Rightarrow> int \<Rightarrow> AudioSegment list \<Rightarrow> AudioSegment list" where
  "splitInner64 jn a segment numSplits splitDuration i result =
     (if i < numSplits then
        (let start = fl64 (StartTime segment + fl64 (fl64 (of_int i) * splitDuration));
             end' = fl64 (StartTime segment + fl64 (fl64 (of_int (i + 1)) * splitDuration));
             end' = (if i = numSplits - 1 then EndTime segment else end');
             splitSegment = createSegment64 jn a start end' (length result)
         in splitInner64 jn a segment numSplits splitDuration (i + 1) (result @ [splitSegment]))
      else result)"
  by pat_completeness auto
termination
  by (relation "measure (\<lambda>(jn, a, segment, numSplits, splitDuration, i, result). nat (numSplits - i))") auto

declare splitInner64.simps [simp del]

definition splitBody64 :: "joiner \<Rightarrow> AudioAnalyzer \<Rightarrow> AudioSegment \<Rightarrow> AudioSegment list \<Rightarrow> AudioSegment list" where
  "splitBody64 jn a segment result =
     (if Duration segment \<le> MaxSegmentDuration a then result @ [segment]
      else
        (let numSplits = go_int (fl64 (Duration segment / MaxSegmentDuration a)) + 1;
             splitDuration = fl64 (Duration segment / fl64 (of_int numSplits))
         in splitInner64 jn a segment numSplits splitDuration 0 result))"

fun splitOuter64 :: "joiner \<Rightarrow> AudioAnalyzer \<Rightarrow> AudioSegment list \<Rightarrow> AudioSegment list \<Rightarrow> AudioSegment list" where
  "splitOuter64 jn a [] result = result"
| "splitOuter64 jn a (segment # segments) result =
     splitOuter64 jn a segments (splitBody64 jn a segment result)"

definition splitLongSegments64 :: "joiner \<Rightarrow> AudioAnalyzer \<Rightarrow> AudioSegment list \<Rightarrow> AudioSegment list" where
  "splitLongSegments64 jn a segments = splitOuter64 jn a segments []"

fun planWalk64 ::
  "joiner \<Rightarrow> AudioAnalyzer \<Rightarrow> float64 list \<Rightarrow> AudioSegment list \<Rightarrow> float64 \<Rightarrow> AudioSegment list \<times> float64" where
  "planWalk64 jn a [] segments currentStart = (segments, currentStart)"
| "planWalk64 jn a (silenceEnd # silencePoints) segments currentStart =
     (if fl64 (silenceEnd - currentStart) \<ge> 10
      then planWalk64 jn a silencePoints
             (segments @ [createSegment64 jn a currentStart silenceEnd (length segments)]) silenceEnd
      else planWalk64 jn a silencePoints segments currentStart)"

definition rawSegments64 :: "joiner \<Rightarrow> AudioAnalyzer \<Rightarrow> float64 list \<Rightarrow> float64 \<Rightarrow> AudioSegment list" where
  "rawSegments64 jn a silencePoints totalDuration =
     (let (segments, currentStart) = planWalk64 jn a silencePoints [] 0
      in if fl64 (totalDuration - currentStart) \<ge> 10
         then segments @ [createSegment64 jn a currentStart totalDuration (length segments)]
         else segments)"

definition CreateSegments64 ::
  "joiner \<Rightarrow> AudioAnalyzer \<Rightarrow> string + float64 list \<Rightarrow> string + float64 \<Rightarrow> string + AudioSegment list" where
  "CreateSegments64 jn a detectSilence getAudioDuration =
     (case detectSilence of
        Inl err \<Rightarrow> Inl err
      | Inr silencePoints \<Rightarrow>
          (case getAudioDuration of
             Inl err \<Rightarrow> Inl err
           | Inr totalDuration \<Rightarrow>
               Inr (splitLongSegments64 jn a (rawSegments64 jn a silencePoints totalDuration))))"

text \<open>The segment one pass of the inner loop builds, in binary64 arithmetic.\<close>

definition subSegment64 ::
  "joiner \<Rightarrow> AudioAnalyzer \<Rightarrow> AudioSegment \<Rightarrow> int \<Rightarrow> float64 \<Rightarrow> int \<Rightarrow> nat \<Rightarrow> AudioSegment" where
  "subSegment64 jn a segment numSplits splitDuration i index =
     createSegment64 jn a (fl64 (StartTime segment + fl64 (fl64 (of_int i) * splitDuration)))
       (if i = numSplits - 1 then EndTime segment
        else fl64 (StartTime segment + fl64 (fl64 (of_int (i + 1)) * splitDuration))) index"

text \<open>
  The numbers \<^verbatim>\<open>strconv.ParseFloat\<close> returns for the texts \<^verbatim>\<open>64.12\<close> and \<^verbatim>\<open>1024.12\<close>.
\<close>

definition silence64 :: float64 where
  "silence64 = fl64 (6412 / 100)"

definition total64 :: float64 where
  "total64 = fl64 (102412 / 100)"

section \<open>Facts about the planner\<close>

lemma createSegment_StartTime [simp]: "StartTime (createSegment jn a s e i) = s"
  by (simp add: createSegment_def Let_def)

lemma createSegment_EndTime [simp]: "EndTime (createSegment jn a s e i) = e"
  by (simp add: createSegment_def Let_def)

lemma createSegment_Duration [simp]: "Duration (createSegment jn a s e i) = e - s"
  by (simp add: createSegment_def Let_def)

lemma splitInner_step:
  "i < n \<Longrightarrow> splitInner jn a seg n sd i result =
     splitInner jn a seg n sd (i + 1) (result @ [subSegment jn a seg n sd i (length result)])"
  by (subst splitInner.simps) (simp add: subSegment_def Let_def)

lemma splitInner_stop: "\<not> i < n \<Longrightarrow> splitInner jn a seg n sd i result = result"
  by (subst splitInner.simps) simp

lemma splitInner_closed:
  "splitInner jn a seg n sd i result =
     result @ map (\<lambda>k. subSegment jn a seg n sd (i + int k) (length result + k)) [0..<nat (n - i)]"
proof (induction "nat (n - i)" arbitrary: i result)
  case 0
  then have "\<not> i < n" by simp
  then show ?case using 0 by (simp add: splitInner_stop)
next
  case (Suc m)
  then have lt: "i < n" and m: "m = nat (n - (i + 1))" by linarith+
  have nat_eq: "nat (n - i) = Suc m" using Suc by simp
  have "splitInner jn a seg n sd (i + 1) (result @ [subSegment jn a seg n sd i (length result)]) =
        (result @ [subSegment jn a seg n sd i (length result)]) @
        map (\<lambda>k. subSegment jn a seg n sd (i + 1 + int k)
                   (length (result @ [subSegment jn a seg n sd i (length result)]) + k)) [0..<m]"
    using Suc.hyps(1)[OF m] m by simp
  also have "\<dots> = result @ map (\<lambda>k. subSegment jn a seg n sd (i + int k) (length result + k)) [0..<Suc m]"
    by (simp add: upt_conv_Cons map_Suc_upt[symmetric] del: upt_Suc) (simp add: add.commute add.left_commute)
  finally show ?case using lt nat_eq by (simp add: splitInner_step del: upt_Suc)
qed

lemma long_quotient:
  assumes "0 < MaxSegmentDuration a" "MaxSegmentDuration a < Duration seg"
  shows "go_int (Duration seg / MaxSegmentDuration a) + 1 = int (numParts a seg)"
    and "2 \<le> numParts a seg"
    and "0 < partWidth a seg"
    and "partWidth a seg < MaxSegmentDuration a"
proof -
  let ?q = "Duration seg / MaxSegmentDuration a"
  have q1: "1 < ?q" using assms by simp
  then have fl: "1 \<le> \<lfloor>?q\<rfloor>" by linarith
  show g: "go_int ?q + 1 = int (numParts a seg)"
    using q1 fl by (simp add: go_int_def numParts_def)
  show n2: "2 \<le> numParts a seg" using fl unfolding numParts_def by linarith
  have D: "0 < Duration seg" using assms by linarith
  show "0 < partWidth a seg" using D n2 by (simp add: partWidth_def)
  have "?q < real_of_int (\<lfloor>?q\<rfloor> + 1)" by linarith
  also have "\<dots> = real (numParts a seg)" using fl by (simp add: numParts_def)
  finally have "Duration seg < real (numParts a seg) * MaxSegmentDuration a"
    using assms(1) by (simp add: pos_divide_less_eq)
  then show "partWidth a seg < MaxSegmentDuration a"
    using n2 by (simp add: partWidth_def pos_divide_less_eq mult.commute)
qed

lemma splitBody_short:
  "Duration seg \<le> MaxSegmentDuration a \<Longrightarrow> splitBody jn a seg result = result @ [seg]"
  by (simp add: splitBody_def)

lemma splitBody_long:
  assumes "0 < MaxSegmentDuration a" "MaxSegmentDuration a < Duration seg"
    and "Duration seg = EndTime seg - StartTime seg"
  shows "splitBody jn a seg result =
     result @ map (\<lambda>k. createSegment jn a (StartTime seg + real k * partWidth a seg)
                      (StartTime seg + real (Suc k) * partWidth a seg) (length result + k))
                [0..<numParts a seg]"
proof -
  let ?n = "numParts a seg" and ?w = "partWidth a seg"
  note q = long_quotient[OF assms(1,2)]
  have nw: "real ?n * ?w = Duration seg" using q(2) by (simp add: partWidth_def)
  have last_end: "EndTime seg = StartTime seg + real ?n * ?w" using nw assms(3) by simp
  have sub: "subSegment jn a seg (int ?n) ?w (int k) idx =
        createSegment jn a (StartTime seg + real k * ?w) (StartTime seg + real (Suc k) * ?w) idx"
    if "k < ?n" for k idx
  proof -
    have e: "(if int k = int ?n - 1 then EndTime seg
              else StartTime seg + real_of_int (int k + 1) * ?w) =
             StartTime seg + real (Suc k) * ?w"
    proof (cases "int k = int ?n - 1")
      case True
      then have k: "?n = Suc k" by linarith
      have "EndTime seg = StartTime seg + real (Suc k) * ?w" using last_end k by simp
      with True show ?thesis by (simp only: simp_thms if_True)
    next
      case False
      then show ?thesis by (simp add: add.commute)
    qed
    show ?thesis unfolding subSegment_def e by simp
  qed
  have "splitBody jn a seg result = splitInner jn a seg (int ?n) ?w 0 result"
    using assms(2) q(1) by (simp add: splitBody_def Let_def partWidth_def)
  also have "\<dots> = result @ map (\<lambda>k. subSegment jn a seg (int ?n) ?w (int k) (length result + k)) [0..<?n]"
    by (simp add: splitInner_closed)
  also have "map (\<lambda>k. subSegment jn a seg (int ?n) ?w (int k) (length result + k)) [0..<?n] =
     map (\<lambda>k. createSegment jn a (StartTime seg + real k * ?w)
                      (StartTime seg + real (Suc k) * ?w) (length result + k)) [0..<?n]"
    by (rule map_cong) (simp_all add: sub)
  finally show ?thesis .
qed


lemma planWalk_inv:
  assumes "sorted_wrt (\<lambda>s t. EndTime s \<le> StartTime t) segs"
    and "\<forall>s\<in>set segs. wellFormed s \<and> 10 \<le> Duration s \<and> EndTime s \<le> cs"
    and "planWalk jn a sil segs cs = (segs', cs')"
  shows "sorted_wrt (\<lambda>s t. EndTime s \<le> StartTime t) segs' \<and>
         (\<forall>s\<in>set segs'. wellFormed s \<and> 10 \<le> Duration s \<and> EndTime s \<le> cs')"
  using assms
proof (induction sil arbitrary: segs cs)
  case Nil
  then show ?case by simp
next
  case (Cons b bs)
  show ?case
  proof (cases "b - cs \<ge> 10")
    case True
    let ?new = "createSegment jn a cs b (length segs)"
    have walk: "planWalk jn a bs (segs @ [?new]) b = (segs', cs')"
      using Cons.prems(3) True by simp
    have s: "sorted_wrt (\<lambda>s t. EndTime s \<le> StartTime t) (segs @ [?new])"
      using Cons.prems(1,2) by (simp add: sorted_wrt_append)
    have g: "\<forall>s\<in>set (segs @ [?new]). wellFormed s \<and> 10 \<le> Duration s \<and> EndTime s \<le> b"
      using Cons.prems(2) True by (auto simp: wellFormed_def)
    show ?thesis by (rule Cons.IH[OF s g walk])
  next
    case False
    then have "planWalk jn a bs segs cs = (segs', cs')" using Cons.prems(3) by simp
    then show ?thesis using Cons.IH Cons.prems(1,2) by blast
  qed
qed

lemma rawSegments_inv:
  "sorted_wrt (\<lambda>s t. EndTime s \<le> StartTime t) (rawSegments jn a sil tot) \<and>
   (\<forall>s\<in>set (rawSegments jn a sil tot). wellFormed s \<and> 10 \<le> Duration s)"
proof -
  obtain segs cs where walk: "planWalk jn a sil [] 0 = (segs, cs)" by (cases "planWalk jn a sil [] 0")
  have inv: "sorted_wrt (\<lambda>s t. EndTime s \<le> StartTime t) segs \<and>
         (\<forall>s\<in>set segs. wellFormed s \<and> 10 \<le> Duration s \<and> EndTime s \<le> cs)"
    by (rule planWalk_inv[OF _ _ walk]) simp_all
  show ?thesis
    using inv by (auto simp: rawSegments_def walk sorted_wrt_append wellFormed_def)
qed


lemma splitBody_inv:
  assumes max: "0 < MaxSegmentDuration a"
    and seg: "wellFormed seg"
    and sorted: "sorted_wrt (\<lambda>s t. EndTime s \<le> StartTime t) result"
    and res: "\<forall>s\<in>set result. wellFormed s \<and> Duration s \<le> MaxSegmentDuration a \<and> EndTime s \<le> StartTime seg"
  shows "sorted_wrt (\<lambda>s t. EndTime s \<le> StartTime t) (splitBody jn a seg result) \<and>
         (\<forall>s\<in>set (splitBody jn a seg result).
            wellFormed s \<and> Duration s \<le> MaxSegmentDuration a \<and> EndTime s \<le> EndTime seg)"
proof (cases "Duration seg \<le> MaxSegmentDuration a")
  case True
  then show ?thesis
    using seg sorted res by (auto simp: splitBody_short sorted_wrt_append wellFormed_def)
next
  case False
  then have long: "MaxSegmentDuration a < Duration seg" by simp
  have dur: "Duration seg = EndTime seg - StartTime seg" using seg by (simp add: wellFormed_def)
  let ?n = "numParts a seg" and ?w = "partWidth a seg"
  let ?f = "\<lambda>k. createSegment jn a (StartTime seg + real k * ?w)
                      (StartTime seg + real (Suc k) * ?w) (length result + k)"
  note q = long_quotient[OF max long]
  have body: "splitBody jn a seg result = result @ map ?f [0..<?n]"
    by (rule splitBody_long[OF max long dur])
  have nw: "real ?n * ?w = Duration seg" using q(2) by (simp add: partWidth_def)
  have up: "real i * ?w \<le> real j * ?w" if "i \<le> j" for i j
    using that q(3) by (simp add: mult_right_mono)
  have part: "wellFormed (?f k) \<and> Duration (?f k) \<le> MaxSegmentDuration a \<and>
              EndTime (?f k) \<le> EndTime seg \<and> StartTime seg \<le> StartTime (?f k)" if "k < ?n" for k
  proof -
    have "real (Suc k) * ?w \<le> real ?n * ?w" using that by (intro up) simp
    then have "StartTime seg + real (Suc k) * ?w \<le> EndTime seg" using nw dur by simp
    moreover have "0 \<le> real k * ?w" using q(3) by simp
    ultimately show ?thesis using q(3,4) by (simp add: wellFormed_def algebra_simps)
  qed
  have chain: "sorted_wrt (\<lambda>s t. EndTime s \<le> StartTime t) (map ?f [0..<?n])"
  proof -
    have "EndTime (?f i) \<le> StartTime (?f j)" if "i < j" for i j
      using up[of "Suc i" j] that by simp
    then show ?thesis by (simp add: sorted_wrt_iff_nth_less)
  qed
  have cross: "\<forall>s\<in>set result. \<forall>t\<in>set (map ?f [0..<?n]). EndTime s \<le> StartTime t"
    using res part by fastforce
  have all: "\<forall>s\<in>set (map ?f [0..<?n]).
      wellFormed s \<and> Duration s \<le> MaxSegmentDuration a \<and> EndTime s \<le> EndTime seg"
    using part by auto
  have old: "\<forall>s\<in>set result.
      wellFormed s \<and> Duration s \<le> MaxSegmentDuration a \<and> EndTime s \<le> EndTime seg"
    using res seg by (auto simp: wellFormed_def)
  show ?thesis
    unfolding body using sorted chain cross all old by (auto simp: sorted_wrt_append)
qed

lemma splitOuter_inv:
  assumes "0 < MaxSegmentDuration a"
    and "sorted_wrt (\<lambda>s t. EndTime s \<le> StartTime t) segs"
    and "\<forall>s\<in>set segs. wellFormed s \<and> lo \<le> StartTime s"
    and "sorted_wrt (\<lambda>s t. EndTime s \<le> StartTime t) result"
    and "\<forall>s\<in>set result. wellFormed s \<and> Duration s \<le> MaxSegmentDuration a \<and> EndTime s \<le> lo"
  shows "sorted_wrt (\<lambda>s t. EndTime s \<le> StartTime t) (splitOuter jn a segs result) \<and>
         (\<forall>s\<in>set (splitOuter jn a segs result). wellFormed s \<and> Duration s \<le> MaxSegmentDuration a)"
  using assms
proof (induction segs arbitrary: result lo)
  case Nil
  then show ?case by simp
next
  case (Cons seg segs)
  have seg: "wellFormed seg" and lo: "lo \<le> StartTime seg" using Cons.prems(3) by simp_all
  have res: "\<forall>s\<in>set result. wellFormed s \<and> Duration s \<le> MaxSegmentDuration a \<and> EndTime s \<le> StartTime seg"
    using Cons.prems(5) lo by fastforce
  note b = splitBody_inv[OF Cons.prems(1) seg Cons.prems(4) res, of jn]
  have rest: "\<forall>s\<in>set segs. wellFormed s \<and> EndTime seg \<le> StartTime s"
    using Cons.prems(2,3) by simp
  have "sorted_wrt (\<lambda>s t. EndTime s \<le> StartTime t) segs" using Cons.prems(2) by simp
  from Cons.IH[OF Cons.prems(1) this rest conjunct1[OF b] conjunct2[OF b]]
  show ?case by simp
qed

lemma plan_inv:
  assumes "0 < MaxSegmentDuration a"
  shows "sorted_wrt (\<lambda>s t. EndTime s \<le> StartTime t) (splitLongSegments jn a (rawSegments jn a sil tot)) \<and>
         (\<forall>s\<in>set (splitLongSegments jn a (rawSegments jn a sil tot)).
            wellFormed s \<and> Duration s \<le> MaxSegmentDuration a)"
proof -
  note r = rawSegments_inv[of jn a sil tot]
  have "\<exists>lo. \<forall>s\<in>set (rawSegments jn a sil tot). wellFormed s \<and> lo \<le> StartTime s"
  proof (cases "rawSegments jn a sil tot")
    case Nil
    then show ?thesis by simp
  next
    case (Cons x xs)
    have "\<forall>s\<in>set (rawSegments jn a sil tot). wellFormed s \<and> StartTime x \<le> StartTime s"
      using r unfolding Cons by (auto simp: wellFormed_def)
    then show ?thesis by blast
  qed
  then obtain lo where lo: "\<forall>s\<in>set (rawSegments jn a sil tot). wellFormed s \<and> lo \<le> StartTime s" ..
  show ?thesis
    unfolding splitLongSegments_def
    by (rule splitOuter_inv[OF assms conjunct1[OF r] lo]) simp_all
qed

lemma planWalk_spec:
  "(case planWalk jn a sil segs cs of
      (segs', cs') \<Rightarrow>
        map interval (if tot - cs' \<ge> 10
                      then segs' @ [createSegment jn a cs' tot (length segs')] else segs')) =
   map interval segs @ spec_walk 10 cs sil tot"
  by (induction sil arbitrary: segs cs) (auto simp: interval_def)

lemma rawSegments_spec:
  "map interval (rawSegments jn a sil tot) = spec_walk 10 0 sil tot"
proof -
  obtain segs cs where walk: "planWalk jn a sil [] 0 = (segs, cs)"
    by (cases "planWalk jn a sil [] 0")
  show ?thesis
    using planWalk_spec[of tot jn a sil "[]" 0] by (simp add: rawSegments_def walk)
qed

section \<open>Facts about the parser\<close>

lemma fieldsFrom_no_space:
  "\<forall>c\<in>set cur. \<not> isSpace c \<Longrightarrow> \<forall>p\<in>set (fieldsFrom cur s). \<forall>c\<in>set p. \<not> isSpace c"
proof (induction s arbitrary: cur)
  case Nil
  then show ?case by simp
next
  case (Cons x s)
  have empty: "\<forall>p\<in>set (fieldsFrom [] s). \<forall>c\<in>set p. \<not> isSpace c"
    by (rule Cons.IH) simp
  show ?case
  proof (cases "isSpace x")
    case True
    then show ?thesis using empty Cons.prems by simp
  next
    case False
    have "\<forall>p\<in>set (fieldsFrom (cur @ [x]) s). \<forall>c\<in>set p. \<not> isSpace c"
      by (rule Cons.IH) (use Cons.prems False in simp)
    then show ?thesis using False by simp
  qed
qed

lemma trim_field:
  assumes "p \<in> set (strings_Fields s)"
  shows "strings_TrimSpace p = p"
proof -
  have ns: "\<forall>c\<in>set p. \<not> isSpace c"
    using fieldsFrom_no_space[of "[]" s] assms by (simp add: strings_Fields_def)
  have d: "dropWhile isSpace q = q" if "\<forall>c\<in>set q. \<not> isSpace c" for q
    using that by (cases q) auto
  show ?thesis using ns by (simp add: strings_TrimSpace_def d)
qed

lemma fieldsFrom_substring:
  "p \<in> set (fieldsFrom cur s) \<Longrightarrow> \<exists>u v. cur @ s = u @ p @ v"
proof (induction s arbitrary: cur)
  case Nil
  then have "p = cur" by (auto split: if_splits)
  then have "cur @ [] = [] @ p @ []" by simp
  then show ?case by blast
next
  case (Cons c s)
  show ?case
  proof (cases "isSpace c")
    case True
    from Cons.prems True have "p = cur \<or> p \<in> set (fieldsFrom [] s)" by (auto split: if_splits)
    then show ?thesis
    proof
      assume "p = cur"
      then have "cur @ c # s = [] @ p @ (c # s)" by simp
      then show ?thesis by blast
    next
      assume "p \<in> set (fieldsFrom [] s)"
      from Cons.IH[OF this] obtain u v where "s = u @ p @ v" by auto
      then have "cur @ c # s = (cur @ c # u) @ p @ v" by simp
      then show ?thesis by blast
    qed
  next
    case False
    with Cons.prems have "p \<in> set (fieldsFrom (cur @ [c]) s)" by simp
    from Cons.IH[OF this] show ?thesis by simp
  qed
qed

lemma contains_prefix: "take (length sub) s = sub \<Longrightarrow> strings_Contains s sub"
  by (cases s) auto

lemma contains_infix: "strings_Contains (u @ sub @ v) sub"
proof (induction u)
  case Nil
  show ?case by (simp add: contains_prefix)
next
  case (Cons x u)
  then show ?case by simp
qed

lemma field_contains:
  assumes "''silence_end:'' \<in> set (strings_Fields line)"
  shows "strings_Contains line ''silence_end''"
proof -
  from fieldsFrom_substring[of "''silence_end:''" "[]" line] assms
  obtain u v where "line = u @ ''silence_end:'' @ v" by (auto simp: strings_Fields_def)
  then have "line = u @ ''silence_end'' @ ('':'' @ v)" by simp
  then show ?thesis using contains_infix by metis
qed

lemma tokensAfter_absent: "key \<notin> set ps \<Longrightarrow> tokensAfter key ps = []"
  by (induction key ps rule: tokensAfter.induct) auto

lemma map_filter_append: "List.map_filter f (xs @ ys) = List.map_filter f xs @ List.map_filter f ys"
  by (simp add: List.map_filter_def)

lemma partsLoop_spec:
  assumes "\<forall>p\<in>set parts. strings_TrimSpace p = p"
  shows "partsLoop pf parts [k..<length parts] acc =
         acc @ List.map_filter pf (tokensAfter ''silence_end:'' (drop k parts))"
proof (induction "length parts - k" arbitrary: k acc)
  case 0
  then show ?case by simp
next
  case (Suc m)
  then have k: "k < length parts" and m: "m = length parts - Suc k" by linarith+
  note IH = Suc.hyps(1)[OF m]
  have upt: "[k..<length parts] = k # [Suc k..<length parts]" using k by (simp add: upt_conv_Cons)
  have dk: "drop k parts = parts ! k # drop (Suc k) parts" using k by (simp add: Cons_nth_drop_Suc)
  show ?case
  proof (cases "Suc k < length parts")
    case True
    have dk': "drop (Suc k) parts = parts ! Suc k # drop (Suc (Suc k)) parts"
      using True by (simp add: Cons_nth_drop_Suc)
    have trim: "strings_TrimSpace (parts ! Suc k) = parts ! Suc k" using assms True by simp
    have tok: "tokensAfter ''silence_end:'' (drop k parts) =
       (if parts ! k = ''silence_end:'' then parts ! Suc k # tokensAfter ''silence_end:'' (drop (Suc k) parts)
        else tokensAfter ''silence_end:'' (drop (Suc k) parts))"
      unfolding dk dk' by simp
    show ?thesis
      unfolding upt tok using True trim
      by (simp add: IH List.map_filter_simps split: option.splits)
  next
    case False
    then have "drop (Suc k) parts = []" by simp
    then have tok: "tokensAfter ''silence_end:'' (drop k parts) = []" using dk by simp
    have "[Suc k..<length parts] = []" using False by simp
    then show ?thesis unfolding upt tok using False by (simp add: List.map_filter_simps)
  qed
qed

lemma linesLoop_spec:
  "linesLoop pf lines acc =
     acc @ List.map_filter pf
             (concat (map (\<lambda>line. tokensAfter ''silence_end:'' (strings_Fields line)) lines))"
proof (induction lines arbitrary: acc)
  case Nil
  show ?case by (simp add: List.map_filter_simps)
next
  case (Cons line lines)
  have trim: "\<forall>p\<in>set (strings_Fields line). strings_TrimSpace p = p"
    using trim_field by blast
  show ?case
  proof (cases "strings_Contains line ''silence_end''")
    case True
    then show ?thesis
      using partsLoop_spec[OF trim, of pf 0 acc]
      by (simp add: Cons.IH map_filter_append Let_def)
  next
    case False
    then have "''silence_end:'' \<notin> set (strings_Fields line)" using field_contains by blast
    then have "tokensAfter ''silence_end:'' (strings_Fields line) = []" by (rule tokensAfter_absent)
    then show ?thesis using False by (simp add: Cons.IH)
  qed
qed


section \<open>The claims about the planner\<close>

text \<open>
  C5. The intervals of the segments that the walk of \<^verbatim>\<open>CreateSegments\<close> produces, before
  the bounding pass, are those of the specification's walk with a minimum gap of 10
  seconds, started at 0: a boundary \<open>b\<close> closes \<open>[currentStart, b)\<close> exactly when
  \<open>b - currentStart \<ge> 10\<close>, and is skipped otherwise; after the last boundary the tail
  \<open>[currentStart, totalDuration)\<close> is closed exactly when it is at least 10 seconds long,
  and a shorter tail adds no segment. Each duration is the length of the interval.
\<close>

theorem planner_walk_refines_spec:
  "map interval (rawSegments jn a silencePoints totalDuration) =
     spec_walk 10 0 silencePoints totalDuration \<and>
   (\<forall>s\<in>set (rawSegments jn a silencePoints totalDuration). Duration s = EndTime s - StartTime s) \<and>
   (totalDuration - snd (planWalk jn a silencePoints [] 0) < 10 \<longrightarrow>
      rawSegments jn a silencePoints totalDuration = fst (planWalk jn a silencePoints [] 0)) \<and>
   (totalDuration - snd (planWalk jn a silencePoints [] 0) \<ge> 10 \<longrightarrow>
      interval (last (rawSegments jn a silencePoints totalDuration)) =
        (snd (planWalk jn a silencePoints [] 0), totalDuration))"
proof -
  obtain segs cs where walk: "planWalk jn a silencePoints [] 0 = (segs, cs)"
    by (cases "planWalk jn a silencePoints [] 0")
  have "\<forall>s\<in>set (rawSegments jn a silencePoints totalDuration). Duration s = EndTime s - StartTime s"
    using rawSegments_inv[of jn a silencePoints totalDuration] by (simp add: wellFormed_def)
  then show ?thesis
    by (simp add: rawSegments_spec) (simp add: rawSegments_def walk interval_def)
qed

theorem planner_walk_refines_spec_witness:
  "map interval (rawSegments slashJoin demoAnalyzer [12, 45, 90] 100) =
     [(0, 12), (12, 45), (45, 90), (90, 100)] \<and>
   map interval (rawSegments slashJoin demoAnalyzer [12, 15, 45, 30] 54.5) = [(0, 12), (12, 45)] \<and>
   rawSegments slashJoin demoAnalyzer [12, 15, 45, 30] 54.5 =
     fst (planWalk slashJoin demoAnalyzer [12, 15, 45, 30] [] 0)"
proof -
  have a: "spec_walk 10 0 [12, 45, 90] 100 = [(0, 12), (12, 45), (45, 90), (90, 100)]" by simp
  have b: "spec_walk 10 0 [12, 15, 45, 30] 54.5 = [(0, 12), (12, 45)]" by simp
  have c: "54.5 - snd (planWalk slashJoin demoAnalyzer [12, 15, 45, 30] [] 0) < 10" by simp
  show ?thesis
    using planner_walk_refines_spec[of slashJoin demoAnalyzer "[12, 45, 90]" 100]
      planner_walk_refines_spec[of slashJoin demoAnalyzer "[12, 15, 45, 30]" "54.5"] a b c
    by (simp add: interval_def)
qed

text \<open>
  C6 does not hold of the code. A part of a split segment is named with its position in
  the output (\<^verbatim>\<open>len(result)\<close>), but a segment that passes through unchanged keeps the
  file name \<^verbatim>\<open>CreateSegments\<close> gave it, with its position before the bounding pass. With
  one silence point at 100 seconds and a total of 120 seconds the output has three
  segments, and the second and the third both carry the index 1.
\<close>

theorem passthrough_keeps_old_index:
  "(case CreateSegments slashJoin demoAnalyzer (Inr [100]) (Inr 120) of
      Inl err \<Rightarrow> []
    | Inr plan \<Rightarrow> map Filename plan) =
   [''segment_000_0.0-50.0.wav'', ''segment_001_50.0-100.0.wav'', ''segment_001_100.0-120.0.wav'']"
  by code_simp

text \<open>
  C10. \<^verbatim>\<open>parseSilenceOutput\<close> returns for every text, and its error is always \<^verbatim>\<open>nil\<close>.
  The numbers it returns are, line by line and in their order, the values of the tokens
  that follow a \<^verbatim>\<open>silence_end:\<close> token on the same line and that \<^verbatim>\<open>ParseFloat\<close>
  accepts; a token that fails to parse is left out.
\<close>

theorem parseSilenceOutput_total:
  "parseSilenceOutput pf output = (spec_parse pf output, None)"
  by (simp add: parseSilenceOutput_def spec_parse_def linesLoop_spec)

theorem parseSilenceOutput_total_witness:
  "parseSilenceOutput demoParser demoOutput = ([12.5, 40], None)"
proof -
  have "spec_parse demoParser demoOutput = [12.5, 40]" by code_simp
  then show ?thesis using parseSilenceOutput_total[of demoParser demoOutput] by simp
qed


section \<open>Facts about the dispatcher\<close>

lemma goroutine_returns:
  "\<not> mainExe_missing env \<Longrightarrow>
   goroutine env a (i, seg) results = Returns (results[i := slotResult env i seg])"
  by (cases "whisper env i seg")
     (auto simp: goroutine_def transcribeCpp_def slotResult_def Let_def split: option.splits)

lemma goroutine_exits: "mainExe_missing env \<Longrightarrow> goroutine env a g results = Exit"
  by (cases g) (simp add: goroutine_def transcribeCpp_def)

lemma runGoroutines_returns:
  "\<not> mainExe_missing env \<Longrightarrow>
   runGoroutines env a sched results =
     Returns (foldl (\<lambda>rs (i, seg). rs[i := slotResult env i seg]) results sched)"
proof (induction sched arbitrary: results)
  case Nil
  show ?case by simp
next
  case (Cons g gs)
  obtain i seg where g: "g = (i, seg)" by (cases g)
  show ?case using Cons by (simp add: g goroutine_returns)
qed

lemma runGoroutines_exits:
  "mainExe_missing env \<Longrightarrow> sched \<noteq> [] \<Longrightarrow> runGoroutines env a sched results = Exit"
  by (cases sched) (simp_all add: goroutine_exits)

lemma foldl_update_length [simp]:
  "length (foldl (\<lambda>rs (i, seg). rs[i := f i seg]) results sched) = length results"
  by (induction sched arbitrary: results) (auto split: prod.splits)

lemma foldl_update_other:
  "j \<notin> fst ` set sched \<Longrightarrow>
   foldl (\<lambda>rs (i, seg). rs[i := f i seg]) results sched ! j = results ! j"
  by (induction sched arbitrary: results) (auto split: prod.splits)

lemma foldl_update_slot:
  assumes "distinct (map fst sched)" "(j, seg) \<in> set sched" "j < length results"
  shows "foldl (\<lambda>rs (i, seg). rs[i := f i seg]) results sched ! j = f j seg"
  using assms
proof (induction sched arbitrary: results)
  case Nil
  then show ?case by simp
next
  case (Cons g gs)
  obtain i s where g: "g = (i, s)" by (cases g)
  show ?case
  proof (cases "(j, seg) = g")
    case True
    then have "j \<notin> fst ` set gs" using Cons.prems(1) by (auto simp: g)
    then show ?thesis using True Cons.prems(3) by (simp add: g[symmetric] foldl_update_other) (simp add: g)
  next
    case False
    then have "(j, seg) \<in> set gs" using Cons.prems(2) by simp
    then show ?thesis using Cons.IH[of "results[i := f i s]"] Cons.prems(1,3) by (simp add: g)
  qed
qed

lemma schedules_facts:
  assumes "schedules segments sched"
  shows "set sched = set (enumerate 0 segments)" and "distinct (map fst sched)"
    and "length sched = length segments"
proof -
  have m: "mset sched = mset (enumerate 0 segments)" using assms by (simp add: schedules_def)
  show "set sched = set (enumerate 0 segments)" using m by (rule mset_eq_setD)
  have "mset (map fst sched) = mset (map fst (enumerate 0 segments))"
    using m by (metis mset_map)
  then have "mset (map fst sched) = mset [0..<length segments]" by simp
  then show "distinct (map fst sched)" by (metis distinct_upt mset_eq_imp_distinct_iff)
  show "length sched = length segments" using m by (metis mset_eq_length length_enumerate)
qed

lemma collected_slots:
  assumes "schedules segments sched"
  shows "foldl (\<lambda>rs (i, seg). rs[i := slotResult env i seg])
           (replicate (length segments) zeroResult) sched =
         map (\<lambda>(i, seg). slotResult env i seg) (enumerate 0 segments)"
proof (rule nth_equalityI)
  show "length (foldl (\<lambda>rs (i, seg). rs[i := slotResult env i seg])
           (replicate (length segments) zeroResult) sched) =
        length (map (\<lambda>(i, seg). slotResult env i seg) (enumerate 0 segments))"
    by simp
next
  fix j
  assume "j < length (foldl (\<lambda>rs (i, seg). rs[i := slotResult env i seg])
           (replicate (length segments) zeroResult) sched)"
  then have j: "j < length segments" by simp
  note f = schedules_facts[OF assms]
  have "(j, segments ! j) \<in> set (enumerate 0 segments)" using j by (simp add: in_set_enumerate_eq)
  then have "(j, segments ! j) \<in> set sched" using f(1) by simp
  from foldl_update_slot[OF f(2) this, of "replicate (length segments) zeroResult" "slotResult env"] j
  show "foldl (\<lambda>rs (i, seg). rs[i := slotResult env i seg])
           (replicate (length segments) zeroResult) sched ! j =
        map (\<lambda>(i, seg). slotResult env i seg) (enumerate 0 segments) ! j"
    by (simp add: nth_enumerate_eq)
qed

lemma ProcessWithCpp_returns:
  assumes "\<not> mainExe_missing env" "1 \<le> MaxWorkers a" "schedules segments sched"
  shows "ProcessWithCpp srt env a sched segments =
     Returns (srt (map (\<lambda>(i, seg). slotResult env i seg) (enumerate 0 segments)), None)"
  using assms(2)
  by (simp add: ProcessWithCpp_def runGoroutines_returns[OF assms(1)] collected_slots[OF assms(3)])

lemma ProcessWithCpp_exits:
  assumes "mainExe_missing env" "1 \<le> MaxWorkers a" "schedules segments sched" "segments \<noteq> []"
  shows "ProcessWithCpp srt env a sched segments = Exit"
proof -
  have "sched \<noteq> []" using schedules_facts(3)[OF assms(3)] assms(4) by auto
  then show ?thesis using assms(1,2) by (simp add: ProcessWithCpp_def runGoroutines_exits)
qed

lemma sorted_perm_unique:
  fixes k :: "'a \<Rightarrow> real"
  assumes "mset ys = mset xs"
    and "sorted_wrt (\<lambda>x y. \<not> k y < k x) ys"
    and "sorted_wrt (\<lambda>x y. k x < k y) xs"
  shows "ys = xs"
proof -
  have "sorted_wrt (<) (map k xs)" using assms(3) by (simp add: sorted_wrt_map)
  then have sx: "sorted (map k xs)" and dx: "distinct (map k xs)"
    by (simp_all add: strict_sorted_iff)
  have sy: "sorted (map k ys)"
    using assms(2) by (simp add: sorted_map not_less)
  have m: "mset (map k ys) = mset (map k xs)" using assms(1) by (metis mset_map)
  have dy: "distinct (map k ys)" using m dx by (metis mset_eq_imp_distinct_iff)
  have keys: "map k ys = map k xs"
    using sx sy dx dy m by (metis sorted_distinct_set_unique mset_eq_setD)
  have "inj_on k (set xs \<union> set ys)"
    using dx assms(1) by (metis distinct_map mset_eq_setD sup.idem)
  then show ?thesis using keys by (metis map_inj_on sup_commute)
qed


lemma contract_sorted:
  assumes "sort_Slice_contract byStart srt"
  shows "mset (srt rs) = mset rs"
    and "sorted_wrt (\<lambda>r s. StartTime (Segment r) \<le> StartTime (Segment s)) (srt rs)"
    and "length (srt rs) = length rs"
proof -
  show m: "mset (srt rs) = mset rs" using assms by (simp add: sort_Slice_contract_def)
  have "sorted_wrt (\<lambda>x y. \<not> byStart y x) (srt rs)" using assms by (simp add: sort_Slice_contract_def)
  then show "sorted_wrt (\<lambda>r s. StartTime (Segment r) \<le> StartTime (Segment s)) (srt rs)"
    by (simp add: byStart_def not_less)
  show "length (srt rs) = length rs" using m by (rule mset_eq_length)
qed

lemma stableSort_contract: "sort_Slice_contract byStart stableSort"
proof -
  have "sorted_wrt (\<lambda>x y. \<not> byStart y x) (stableSort xs)" for xs
    using sorted_sort_key[of "\<lambda>r. StartTime (Segment r)" xs]
    by (simp add: stableSort_def byStart_def sorted_map not_less)
  then show ?thesis by (simp add: sort_Slice_contract_def stableSort_def)
qed

lemma contract_strict_input:
  assumes "sort_Slice_contract byStart srt"
    and "sorted_wrt (\<lambda>r s. StartTime (Segment r) < StartTime (Segment s)) rs"
  shows "srt rs = rs"
proof (rule sorted_perm_unique[where k = "\<lambda>r. StartTime (Segment r)"])
  show "mset (srt rs) = mset rs" by (rule contract_sorted(1)[OF assms(1)])
  show "sorted_wrt (\<lambda>x y. \<not> StartTime (Segment y) < StartTime (Segment x)) (srt rs)"
    using contract_sorted(2)[OF assms(1), of rs] by (simp add: not_less)
  show "sorted_wrt (\<lambda>x y. StartTime (Segment x) < StartTime (Segment y)) rs" by (rule assms(2))
qed

lemma slotResult_Segment [simp]: "Segment (slotResult env i seg) = seg"
  by (simp add: slotResult_def split: option.splits)

lemma slotResult_failed:
  "snd (whisper env i seg) \<noteq> None \<Longrightarrow> Error (slotResult env i seg) \<noteq> [] \<and> Text (slotResult env i seg) = []"
  by (auto simp: slotResult_def split: option.splits)

lemma slotResult_succeeded:
  "snd (whisper env i seg) = None \<Longrightarrow>
   Error (slotResult env i seg) = [] \<and>
   Text (slotResult env i seg) = strings_TrimSpace (fst (whisper env i seg))"
  by (simp add: slotResult_def)

lemma slots_strict:
  assumes "sorted_wrt (\<lambda>s t. StartTime s < StartTime t) segments"
  shows "sorted_wrt (\<lambda>r s. StartTime (Segment r) < StartTime (Segment s))
           (map (\<lambda>(i, seg). slotResult env i seg) (enumerate 0 segments))"
  using assms by (simp add: sorted_wrt_iff_nth_less nth_enumerate_eq)

lemma plan_starts_increase:
  assumes "0 < MaxSegmentDuration a"
  shows "sorted_wrt (\<lambda>s t. StartTime s < StartTime t)
           (splitLongSegments jn a (rawSegments jn a sil tot))"
proof -
  note inv = plan_inv[OF assms, of jn sil tot]
  let ?plan = "splitLongSegments jn a (rawSegments jn a sil tot)"
  have "StartTime (?plan ! i) < StartTime (?plan ! j)" if "i < j" "j < length ?plan" for i j
  proof -
    have "EndTime (?plan ! i) \<le> StartTime (?plan ! j)"
      using conjunct1[OF inv] that by (simp add: sorted_wrt_iff_nth_less)
    moreover have "StartTime (?plan ! i) < EndTime (?plan ! i)"
      using conjunct2[OF inv] that by (simp add: wellFormed_def)
    ultimately show ?thesis by simp
  qed
  then show ?thesis by (simp add: sorted_wrt_iff_nth_less)
qed

section \<open>The claims about the dispatcher\<close>

text \<open>
  C3, as the code has it. When \<^verbatim>\<open>main.exe\<close> exists and there is at least one worker,
  \<^verbatim>\<open>ProcessWithCpp\<close> returns, for every schedule of the goroutines, a collection as long as
  the plan, with a \<^verbatim>\<open>nil\<close> error: the results the slots were given, rearranged into
  ascending order of start time. Slot \<open>i\<close> of the returned collection holds the result of
  \<open>plan[i]\<close> when the start times of the plan increase strictly, which they do in every
  plan of \<^verbatim>\<open>CreateSegments\<close>; the sort moves the results of any other plan.
\<close>

theorem dispatch_slots:
  assumes "sort_Slice_contract byStart srt" and "\<not> mainExe_missing env" and "1 \<le> MaxWorkers a"
    and "schedules segments sched"
  shows "(\<exists>results. ProcessWithCpp srt env a sched segments = Returns (results, None) \<and>
      length results = length segments \<and>
      mset results = mset (map (\<lambda>(i, seg). slotResult env i seg) (enumerate 0 segments)) \<and>
      sorted_wrt (\<lambda>r s. StartTime (Segment r) \<le> StartTime (Segment s)) results \<and>
      (sorted_wrt (\<lambda>s t. StartTime s < StartTime t) segments \<longrightarrow>
         (\<forall>i < length segments.
            results ! i = slotResult env i (segments ! i) \<and> Segment (results ! i) = segments ! i))) \<and>
     (0 < MaxSegmentDuration a \<longrightarrow>
        sorted_wrt (\<lambda>s t. StartTime s < StartTime t)
          (splitLongSegments jn a (rawSegments jn a silencePoints totalDuration)))"
proof -
  let ?slots = "map (\<lambda>(i, seg). slotResult env i seg) (enumerate 0 segments)"
  have r: "ProcessWithCpp srt env a sched segments = Returns (srt ?slots, None)"
    by (rule ProcessWithCpp_returns[OF assms(2,3,4)])
  note c = contract_sorted[OF assms(1), of ?slots]
  have l: "length (srt ?slots) = length segments" using c(3) by simp
  have s: "\<forall>i < length segments.
            srt ?slots ! i = slotResult env i (segments ! i) \<and> Segment (srt ?slots ! i) = segments ! i"
    if "sorted_wrt (\<lambda>s t. StartTime s < StartTime t) segments"
    using contract_strict_input[OF assms(1) slots_strict[OF that, of env]]
    by (simp add: nth_enumerate_eq)
  show ?thesis using r l c(1,2) s plan_starts_increase by blast
qed

theorem dispatch_slots_witness:
  "sort_Slice_contract byStart stableSort \<and> \<not> mainExe_missing failingEnv \<and>
   1 \<le> MaxWorkers demoAnalyzer \<and> schedules ascendingPlan (rev (enumerate 0 ascendingPlan)) \<and>
   sorted_wrt (\<lambda>s t. StartTime s < StartTime t) ascendingPlan \<and>
   (\<exists>results. ProcessWithCpp stableSort failingEnv demoAnalyzer (rev (enumerate 0 ascendingPlan))
                 ascendingPlan = Returns (results, None) \<and>
      length results = 2 \<and>
      Segment (results ! 0) = ascendingPlan ! 0 \<and> Segment (results ! 1) = ascendingPlan ! 1)"
proof -
  have h1: "sort_Slice_contract byStart stableSort" by (rule stableSort_contract)
  have h2: "\<not> mainExe_missing failingEnv" by (simp add: failingEnv_def quietEnv_def)
  have h3: "1 \<le> MaxWorkers demoAnalyzer" by (simp add: demoAnalyzer_def NewAudioAnalyzer_def)
  have h4: "schedules ascendingPlan (rev (enumerate 0 ascendingPlan))"
    by (simp add: schedules_def ascendingPlan_def)
  have h5: "sorted_wrt (\<lambda>s t. StartTime s < StartTime t) ascendingPlan"
    by (simp add: ascendingPlan_def)
  have l: "length ascendingPlan = 2" by (simp add: ascendingPlan_def)
  from conjunct1[OF dispatch_slots[OF h1 h2 h3 h4, of slashJoin "[]" 0]] h5 l
  obtain results where
    "ProcessWithCpp stableSort failingEnv demoAnalyzer (rev (enumerate 0 ascendingPlan))
       ascendingPlan = Returns (results, None)"
    "length results = 2"
    "\<forall>i < 2. Segment (results ! i) = ascendingPlan ! i"
    by auto
  then show ?thesis using h1 h2 h3 h4 h5 by auto
qed

text \<open>
  C3 as the claim words it fails for a plan that is not in ascending order of start
  time: the plan \<open>[10, 20), [0, 10)\<close> comes back as \<open>[0, 10), [10, 20)\<close>, so slot 0 does not
  hold the segment of \<open>plan[0]\<close>. And when \<^verbatim>\<open>main.exe\<close> is missing nothing is returned.
\<close>

theorem dispatch_slots_counterexample:
  "map interval descendingPlan = [(10, 20), (0, 10)] \<and>
   (case ProcessWithCpp stableSort quietEnv demoAnalyzer (enumerate 0 descendingPlan) descendingPlan of
      Returns (results, err) \<Rightarrow> map (\<lambda>r. interval (Segment r)) results
    | Exit \<Rightarrow> [] | Panic \<Rightarrow> [] | Blocked \<Rightarrow> []) = [(0, 10), (10, 20)] \<and>
   ProcessWithCpp stableSort noEngineEnv demoAnalyzer (enumerate 0 descendingPlan) descendingPlan = Exit"
  by code_simp


text \<open>
  C7, as the code has it. With at least one worker and for every schedule: when
  \<^verbatim>\<open>main.exe\<close> exists, \<^verbatim>\<open>ProcessWithCpp\<close> returns the results of all slots, and the result
  of a slot is decided by the engine's answer for that slot alone. If the invocation
  failed, by a nonzero exit or because \<^verbatim>\<open>whisper-cli.exe\<close> could not be started, the
  result has a non-empty error and an empty text; if not, it has an empty error and the
  trimmed output as its text. When \<^verbatim>\<open>main.exe\<close> is missing and the plan is not empty, the
  first goroutine to run stops the process with \<^verbatim>\<open>log.Fatal\<close>, and nothing is returned.
\<close>

theorem engine_failure_captured:
  assumes "sort_Slice_contract byStart srt" and "1 \<le> MaxWorkers a" and "schedules segments sched"
  shows "(\<not> mainExe_missing env \<longrightarrow>
      (\<exists>results. ProcessWithCpp srt env a sched segments = Returns (results, None) \<and>
         mset results = mset (map (\<lambda>(i, seg). slotResult env i seg) (enumerate 0 segments)) \<and>
         (\<forall>i < length segments.
            slotResult env i (segments ! i) \<in> set results \<and>
            Segment (slotResult env i (segments ! i)) = segments ! i \<and>
            (snd (whisper env i (segments ! i)) \<noteq> None \<longrightarrow>
               Error (slotResult env i (segments ! i)) \<noteq> [] \<and>
               Text (slotResult env i (segments ! i)) = []) \<and>
            (snd (whisper env i (segments ! i)) = None \<longrightarrow>
               Error (slotResult env i (segments ! i)) = [] \<and>
               Text (slotResult env i (segments ! i)) =
                 strings_TrimSpace (fst (whisper env i (segments ! i))))))) \<and>
     (mainExe_missing env \<and> segments \<noteq> [] \<longrightarrow> ProcessWithCpp srt env a sched segments = Exit)"
proof (intro conjI impI)
  assume ok: "\<not> mainExe_missing env"
  let ?slots = "map (\<lambda>(i, seg). slotResult env i seg) (enumerate 0 segments)"
  have r: "ProcessWithCpp srt env a sched segments = Returns (srt ?slots, None)"
    by (rule ProcessWithCpp_returns[OF ok assms(2,3)])
  have m: "mset (srt ?slots) = mset ?slots" by (rule contract_sorted(1)[OF assms(1)])
  have "slotResult env i (segments ! i) \<in> set (srt ?slots)" if "i < length segments" for i
  proof -
    have "?slots ! i = slotResult env i (segments ! i)" using that by (simp add: nth_enumerate_eq)
    then have "slotResult env i (segments ! i) \<in> set ?slots"
      using that by (metis length_enumerate length_map nth_mem)
    then show ?thesis using m by (metis mset_eq_setD)
  qed
  then show "\<exists>results. ProcessWithCpp srt env a sched segments = Returns (results, None) \<and>
         mset results = mset (map (\<lambda>(i, seg). slotResult env i seg) (enumerate 0 segments)) \<and>
         (\<forall>i < length segments.
            slotResult env i (segments ! i) \<in> set results \<and>
            Segment (slotResult env i (segments ! i)) = segments ! i \<and>
            (snd (whisper env i (segments ! i)) \<noteq> None \<longrightarrow>
               Error (slotResult env i (segments ! i)) \<noteq> [] \<and>
               Text (slotResult env i (segments ! i)) = []) \<and>
            (snd (whisper env i (segments ! i)) = None \<longrightarrow>
               Error (slotResult env i (segments ! i)) = [] \<and>
               Text (slotResult env i (segments ! i)) =
                 strings_TrimSpace (fst (whisper env i (segments ! i)))))"
    using r m slotResult_failed slotResult_succeeded by (intro exI[of _ "srt ?slots"]) simp
next
  assume "mainExe_missing env \<and> segments \<noteq> []"
  then show "ProcessWithCpp srt env a sched segments = Exit"
    using ProcessWithCpp_exits[OF _ assms(2,3)] by blast
qed

theorem engine_failure_captured_witness:
  "sort_Slice_contract byStart stableSort \<and> 1 \<le> MaxWorkers demoAnalyzer \<and>
   schedules ascendingPlan (rev (enumerate 0 ascendingPlan)) \<and>
   \<not> mainExe_missing failingEnv \<and> snd (whisper failingEnv 1 (ascendingPlan ! 1)) \<noteq> None \<and>
   snd (whisper failingEnv 0 (ascendingPlan ! 0)) = None \<and>
   (\<exists>results. ProcessWithCpp stableSort failingEnv demoAnalyzer (rev (enumerate 0 ascendingPlan))
                 ascendingPlan = Returns (results, None) \<and>
      slotResult failingEnv 0 (ascendingPlan ! 0) \<in> set results \<and>
      slotResult failingEnv 1 (ascendingPlan ! 1) \<in> set results) \<and>
   Error (slotResult failingEnv 1 (ascendingPlan ! 1)) \<noteq> [] \<and>
   Text (slotResult failingEnv 1 (ascendingPlan ! 1)) = [] \<and>
   Error (slotResult failingEnv 0 (ascendingPlan ! 0)) = [] \<and>
   Text (slotResult failingEnv 0 (ascendingPlan ! 0)) = ''hello'' \<and>
   mainExe_missing noEngineEnv \<and>
   ProcessWithCpp stableSort noEngineEnv demoAnalyzer (rev (enumerate 0 ascendingPlan)) ascendingPlan = Exit"
proof -
  have h1: "sort_Slice_contract byStart stableSort" by (rule stableSort_contract)
  have h2: "1 \<le> MaxWorkers demoAnalyzer" by (simp add: demoAnalyzer_def NewAudioAnalyzer_def)
  have h3: "schedules ascendingPlan (rev (enumerate 0 ascendingPlan))"
    by (simp add: schedules_def ascendingPlan_def)
  have h4: "\<not> mainExe_missing failingEnv" by (simp add: failingEnv_def quietEnv_def)
  have h5: "snd (whisper failingEnv 1 (ascendingPlan ! 1)) \<noteq> None"
    by (simp add: failingEnv_def quietEnv_def)
  have h6: "snd (whisper failingEnv 0 (ascendingPlan ! 0)) = None"
    by (simp add: failingEnv_def quietEnv_def)
  have h7: "mainExe_missing noEngineEnv" by (simp add: noEngineEnv_def quietEnv_def)
  have l: "length ascendingPlan = 2" "ascendingPlan \<noteq> []" by (simp_all add: ascendingPlan_def)
  have t: "Text (slotResult failingEnv 0 (ascendingPlan ! 0)) = ''hello''"
    by (simp add: slotResult_def failingEnv_def quietEnv_def strings_TrimSpace_def isSpace_def)
  note a = engine_failure_captured[OF h1 h2 h3, of failingEnv]
  note b = engine_failure_captured[OF h1 h2 h3, of noEngineEnv]
  from a h4 l obtain results where r:
    "ProcessWithCpp stableSort failingEnv demoAnalyzer (rev (enumerate 0 ascendingPlan))
       ascendingPlan = Returns (results, None)"
    "\<forall>i < 2. slotResult failingEnv i (ascendingPlan ! i) \<in> set results \<and>
       (snd (whisper failingEnv i (ascendingPlan ! i)) \<noteq> None \<longrightarrow>
               Error (slotResult failingEnv i (ascendingPlan ! i)) \<noteq> [] \<and>
               Text (slotResult failingEnv i (ascendingPlan ! i)) = []) \<and>
       (snd (whisper failingEnv i (ascendingPlan ! i)) = None \<longrightarrow>
               Error (slotResult failingEnv i (ascendingPlan ! i)) = [])"
    by auto
  have r0: "slotResult failingEnv 0 (ascendingPlan ! 0) \<in> set results"
      "Error (slotResult failingEnv 0 (ascendingPlan ! 0)) = []"
    using r(2) h6 by auto
  have r1: "slotResult failingEnv 1 (ascendingPlan ! 1) \<in> set results"
      "Error (slotResult failingEnv 1 (ascendingPlan ! 1)) \<noteq> []"
      "Text (slotResult failingEnv 1 (ascendingPlan ! 1)) = []"
    using r(2) h5 by auto
  have x: "ProcessWithCpp stableSort noEngineEnv demoAnalyzer (rev (enumerate 0 ascendingPlan)) ascendingPlan = Exit"
    using b h7 l(2) by blast
  show ?thesis using h1 h2 h3 h4 h5 h6 h7 r(1) r0 r1 t x by blast
qed

text \<open>
  C7 as the claim words it fails for the missing binary that \<^verbatim>\<open>transcribeCpp\<close> tests for:
  without \<^verbatim>\<open>main.exe\<close> the process exits, and no segment gets a result.
\<close>

theorem missing_engine_counterexample:
  "mainExe_missing noEngineEnv \<and>
   ProcessWithCpp stableSort noEngineEnv demoAnalyzer (enumerate 0 ascendingPlan) ascendingPlan = Exit \<and>
   transcribeCpp noEngineEnv 0 (ascendingPlan ! 0) = Exit"
  by code_simp


section \<open>The claims about extraction failures and the report\<close>

lemma extract_logs_set:
  assumes "schedules segments sched"
  shows "set (concat (map (\<lambda>(index, seg). extractGoroutine env a seg) sched)) =
     {''Failed to extract segment '' @ Filename seg @ '': ffmpeg extraction failed: '' @ e | seg e.
        seg \<in> set segments \<and> ffmpeg_extract env seg = Some e}"
proof -
  have s: "set sched = set (enumerate 0 segments)" by (rule schedules_facts(1)[OF assms])
  have "snd ` set sched = set segments"
    unfolding s by (metis map_snd_enumerate set_map)
  then have segs: "seg \<in> set segments \<longleftrightarrow> (\<exists>i. (i, seg) \<in> set sched)" for seg
    by force
  have g: "set (extractGoroutine env a seg) =
      {''Failed to extract segment '' @ Filename seg @ '': ffmpeg extraction failed: '' @ e | e.
         ffmpeg_extract env seg = Some e}" for seg
    by (cases "ffmpeg_extract env seg") (simp_all add: extractGoroutine_def extractSingleSegment_def)
  have "set (concat (map (\<lambda>(index, seg). extractGoroutine env a seg) sched)) =
        (\<Union>p\<in>set sched. set (extractGoroutine env a (snd p)))"
    by (simp add: case_prod_unfold)
  also have "\<dots> = (\<Union>seg\<in>set segments. set (extractGoroutine env a seg))"
    using segs by fastforce
  also have "\<dots> = {''Failed to extract segment '' @ Filename seg @ '': ffmpeg extraction failed: '' @ e | seg e.
        seg \<in> set segments \<and> ffmpeg_extract env seg = Some e}"
    unfolding g by blast
  finally show ?thesis .
qed

text \<open>
  C8, as the code has it. With at least one worker, \<^verbatim>\<open>ExtractAudioSegments\<close> returns for
  every schedule; its error is not \<^verbatim>\<open>nil\<close> exactly when the output directory could not
  be created, and otherwise it logs one line for each segment whose extraction failed
  and nothing else happens to the run. The transcription phase does not look at what
  the extraction did: when \<^verbatim>\<open>main.exe\<close> exists it returns the results of all slots, and
  the result of a slot has a non-empty error with an empty text exactly when the engine's
  own invocation for that slot failed.
\<close>

theorem extraction_failure_policy:
  assumes "sort_Slice_contract byStart srt" and "1 \<le> MaxWorkers a"
    and "schedules segments sched" and "schedules segments sched'"
  shows "(\<exists>err logs. ExtractAudioSegments env a sched segments = Returns (err, logs) \<and>
        (err \<noteq> None \<longleftrightarrow> os_MkdirAll env (OutputDir a) \<noteq> None) \<and>
        (os_MkdirAll env (OutputDir a) = None \<longrightarrow>
           set logs =
             {''Failed to extract segment '' @ Filename seg @ '': ffmpeg extraction failed: '' @ e | seg e.
                seg \<in> set segments \<and> ffmpeg_extract env seg = Some e})) \<and>
     (\<not> mainExe_missing env \<longrightarrow>
        (\<exists>results. ProcessWithCpp srt env a sched' segments = Returns (results, None) \<and>
           mset results = mset (map (\<lambda>(i, seg). slotResult env i seg) (enumerate 0 segments)) \<and>
           (\<forall>i < length segments.
              slotResult env i (segments ! i) \<in> set results \<and>
              ((Error (slotResult env i (segments ! i)) \<noteq> [] \<and>
                Text (slotResult env i (segments ! i)) = []) \<longleftrightarrow>
               snd (whisper env i (segments ! i)) \<noteq> None))))"
proof (intro conjI impI)
  show "\<exists>err logs. ExtractAudioSegments env a sched segments = Returns (err, logs) \<and>
        (err \<noteq> None \<longleftrightarrow> os_MkdirAll env (OutputDir a) \<noteq> None) \<and>
        (os_MkdirAll env (OutputDir a) = None \<longrightarrow>
           set logs =
             {''Failed to extract segment '' @ Filename seg @ '': ffmpeg extraction failed: '' @ e | seg e.
                seg \<in> set segments \<and> ffmpeg_extract env seg = Some e})"
  proof (cases "os_MkdirAll env (OutputDir a)")
    case None
    then show ?thesis
      using assms(2) extract_logs_set[OF assms(3), of env a]
      by (simp add: ExtractAudioSegments_def)
  next
    case (Some e)
    then show ?thesis by (simp add: ExtractAudioSegments_def)
  qed
next
  assume ok: "\<not> mainExe_missing env"
  let ?slots = "map (\<lambda>(i, seg). slotResult env i seg) (enumerate 0 segments)"
  have r: "ProcessWithCpp srt env a sched' segments = Returns (srt ?slots, None)"
    by (rule ProcessWithCpp_returns[OF ok assms(2,4)])
  have m: "mset (srt ?slots) = mset ?slots" by (rule contract_sorted(1)[OF assms(1)])
  have mem: "slotResult env i (segments ! i) \<in> set (srt ?slots)" if "i < length segments" for i
  proof -
    have "?slots ! i = slotResult env i (segments ! i)" using that by (simp add: nth_enumerate_eq)
    then have "slotResult env i (segments ! i) \<in> set ?slots"
      using that by (metis length_enumerate length_map nth_mem)
    then show ?thesis using m by (metis mset_eq_setD)
  qed
  have iff: "(Error (slotResult env i seg) \<noteq> [] \<and> Text (slotResult env i seg) = []) \<longleftrightarrow>
             snd (whisper env i seg) \<noteq> None" for i seg
    using slotResult_failed[of env i seg] slotResult_succeeded[of env i seg] by blast
  show "\<exists>results. ProcessWithCpp srt env a sched' segments = Returns (results, None) \<and>
           mset results = mset (map (\<lambda>(i, seg). slotResult env i seg) (enumerate 0 segments)) \<and>
           (\<forall>i < length segments.
              slotResult env i (segments ! i) \<in> set results \<and>
              ((Error (slotResult env i (segments ! i)) \<noteq> [] \<and>
                Text (slotResult env i (segments ! i)) = []) \<longleftrightarrow>
               snd (whisper env i (segments ! i)) \<noteq> None))"
    using r m mem iff by (intro exI[of _ "srt ?slots"]) simp
qed

theorem extraction_failure_policy_witness:
  "sort_Slice_contract byStart stableSort \<and> 1 \<le> MaxWorkers demoAnalyzer \<and>
   schedules ascendingPlan (rev (enumerate 0 ascendingPlan)) \<and>
   schedules ascendingPlan (enumerate 0 ascendingPlan) \<and>
   os_MkdirAll staleEnv (OutputDir demoAnalyzer) = None \<and> \<not> mainExe_missing staleEnv \<and>
   (\<exists>logs. ExtractAudioSegments staleEnv demoAnalyzer (rev (enumerate 0 ascendingPlan)) ascendingPlan =
              Returns (None, logs) \<and>
      ''Failed to extract segment segment_001_10.0-20.0.wav: ffmpeg extraction failed: exit status 1''
        \<in> set logs) \<and>
   (\<exists>results. ProcessWithCpp stableSort staleEnv demoAnalyzer (enumerate 0 ascendingPlan) ascendingPlan =
                 Returns (results, None) \<and>
      slotResult staleEnv 1 (ascendingPlan ! 1) \<in> set results)"
proof -
  have h1: "sort_Slice_contract byStart stableSort" by (rule stableSort_contract)
  have h2: "1 \<le> MaxWorkers demoAnalyzer" by (simp add: demoAnalyzer_def NewAudioAnalyzer_def)
  have h3: "schedules ascendingPlan (rev (enumerate 0 ascendingPlan))"
    by (simp add: schedules_def ascendingPlan_def)
  have h4: "schedules ascendingPlan (enumerate 0 ascendingPlan)" by (simp add: schedules_def)
  have h5: "os_MkdirAll staleEnv (OutputDir demoAnalyzer) = None"
    by (simp add: staleEnv_def quietEnv_def)
  have h6: "\<not> mainExe_missing staleEnv" by (simp add: staleEnv_def quietEnv_def)
  have l: "length ascendingPlan = 2" by (simp add: ascendingPlan_def)
  have f: "Filename (ascendingPlan ! 1) = ''segment_001_10.0-20.0.wav''" by code_simp
  have g: "ascendingPlan ! 1 \<in> set ascendingPlan" using l by simp
  have e: "ffmpeg_extract staleEnv (ascendingPlan ! 1) = Some ''exit status 1''"
    by (simp add: staleEnv_def quietEnv_def)
  note t = extraction_failure_policy[OF h1 h2 h3 h4, of staleEnv]
  from conjunct1[OF t] h5 obtain logs where x:
    "ExtractAudioSegments staleEnv demoAnalyzer (rev (enumerate 0 ascendingPlan)) ascendingPlan =
       Returns (None, logs)"
    "set logs =
       {''Failed to extract segment '' @ Filename seg @ '': ffmpeg extraction failed: '' @ e | seg e.
          seg \<in> set ascendingPlan \<and> ffmpeg_extract staleEnv seg = Some e}"
    by auto
  have "''Failed to extract segment '' @ Filename (ascendingPlan ! 1) @
          '': ffmpeg extraction failed: '' @ ''exit status 1'' \<in> set logs"
    unfolding x(2) using g e by blast
  moreover have "''Failed to extract segment '' @ Filename (ascendingPlan ! 1) @
          '': ffmpeg extraction failed: '' @ ''exit status 1'' =
     ''Failed to extract segment segment_001_10.0-20.0.wav: ffmpeg extraction failed: exit status 1''"
    unfolding f by simp
  ultimately have y: "''Failed to extract segment segment_001_10.0-20.0.wav: ffmpeg extraction failed: exit status 1''
        \<in> set logs"
    by (simp only:)
  from conjunct2[OF t] h6 l obtain results where z:
    "ProcessWithCpp stableSort staleEnv demoAnalyzer (enumerate 0 ascendingPlan) ascendingPlan =
       Returns (results, None)"
    "slotResult staleEnv 1 (ascendingPlan ! 1) \<in> set results"
    by auto
  show ?thesis using h1 h2 h3 h4 h5 h6 x(1) y z by blast
qed

text \<open>
  C8 as the claim words it ties the result of a segment to its extraction. The code does
  not: where every extraction fails and the engine still answers, the extraction is
  logged, and the result of the segment has an empty error and the engine's text.
\<close>

theorem extraction_failure_counterexample:
  "ffmpeg_extract staleEnv (ascendingPlan ! 0) = Some ''exit status 1'' \<and>
   ExtractAudioSegments staleEnv demoAnalyzer (enumerate 0 ascendingPlan) ascendingPlan =
     Returns (None,
       [''Failed to extract segment segment_000_0.0-10.0.wav: ffmpeg extraction failed: exit status 1'',
        ''Failed to extract segment segment_001_10.0-20.0.wav: ffmpeg extraction failed: exit status 1'']) \<and>
   (case ProcessWithCpp stableSort staleEnv demoAnalyzer (enumerate 0 ascendingPlan) ascendingPlan of
      Returns (results, err) \<Rightarrow> map (\<lambda>r. (interval (Segment r), Text r, Error r)) results
    | Exit \<Rightarrow> [] | Panic \<Rightarrow> [] | Blocked \<Rightarrow> []) =
     [((0, 10), ''hello'', []), ((10, 20), ''hello'', [])]"
  by code_simp


lemma textLoop_concat: "textLoop results builder = builder @ concat (map textLine results)"
  by (induction results arbitrary: builder) simp_all

lemma textLine_payload: "textLine r = stamp r @ payload r @ [CHR 0x0A]"
  by (simp add: textLine_def payload_def)

lemma digit_char: "digit d \<in> set ''0123456789''"
proof -
  have "d mod 10 < length ''0123456789''" by simp
  then show ?thesis unfolding digit_def by (rule nth_mem)
qed

lemma decimal_chars: "set (decimal n) \<subseteq> set ''0123456789''"
proof (induction n rule: decimal.induct)
  case (1 n)
  show ?case
  proof (cases "n < 10")
    case True
    then show ?thesis using digit_char[of n] by (subst decimal.simps) simp
  next
    case False
    then show ?thesis
      using 1 digit_char[of "n mod 10"] by (subst decimal.simps) simp
  qed
qed

lemma fmt_f1_no_newline: "CHR 0x0A \<notin> set (fmt_f1 x)"
proof -
  have d: "CHR 0x0A \<notin> set ''0123456789''" by simp
  have "CHR 0x0A \<notin> set (decimal n)" for n using decimal_chars[of n] d by blast
  moreover have "CHR 0x0A \<noteq> digit k" for k using digit_char[of k] d by metis
  ultimately show ?thesis by (simp add: fmt_f1_def Let_def)
qed

lemma stamp_no_newline: "CHR 0x0A \<notin> set (stamp r)"
  by (simp add: stamp_def fmt_f1_no_newline)

lemma split_line:
  "sep \<notin> set l \<Longrightarrow> strings_Split (l @ sep # rest) sep = l # strings_Split rest sep"
  by (induction l) auto

lemma split_report:
  assumes "\<forall>r\<in>set results. CHR 0x0A \<notin> set (payload r)"
  shows "strings_Split (concat (map textLine results)) (CHR 0x0A) =
         map (\<lambda>r. stamp r @ payload r) results @ [[]]"
  using assms
proof (induction results)
  case Nil
  show ?case by simp
next
  case (Cons r rs)
  have nl: "CHR 0x0A \<notin> set (stamp r @ payload r)" using Cons.prems stamp_no_newline by simp
  have e: "concat (map textLine (r # rs)) =
           (stamp r @ payload r) @ CHR 0x0A # concat (map textLine rs)"
    by (simp add: textLine_payload[of r])
  have ih: "strings_Split (concat (map textLine rs)) (CHR 0x0A) =
            map (\<lambda>r. stamp r @ payload r) rs @ [[]]"
    using Cons by simp
  show ?case unfolding e split_line[OF nl] ih by simp
qed

text \<open>
  C9, as the code has it. When the results are marshalled and both files are written
  without error, \<^verbatim>\<open>OutputResults\<close> returns \<^verbatim>\<open>nil\<close> and the text file holds the byte-order
  mark followed by one record per result, in the order of the collection: the time
  stamp, then the text, or \<^verbatim>\<open>ERROR: \<close> and the message when the error is not empty, then
  a line feed, with nothing left out or shortened. Where no text and no message contains a
  line feed, the records are the lines of the file, one per result.
\<close>

theorem report_text_file:
  assumes "json_MarshalIndent env results = Inr jsonData"
    and "os_WriteFile env (jn (OutputDir a) ''transcription_results.json'') jsonData = None"
    and "os_WriteFile env (jn (OutputDir a) ''transcription_results.txt'')
           (bom @ concat (map textLine results)) = None"
  shows "returned (OutputResults jn env a results) = None \<and>
     written (OutputResults jn env a results) =
       [(jn (OutputDir a) ''transcription_results.json'', jsonData),
        (jn (OutputDir a) ''transcription_results.txt'', bom @ concat (map textLine results))] \<and>
     bom = [CHR 0xEF, CHR 0xBB, CHR 0xBF] \<and>
     map textLine results =
       map (\<lambda>r. ''['' @ fmt_f1 (StartTime (Segment r)) @ ''s-'' @ fmt_f1 (EndTime (Segment r)) @ ''s] '' @
                 (if Error r \<noteq> [] then ''ERROR: '' @ Error r else Text r) @ [CHR 0x0A]) results \<and>
     ((\<forall>r\<in>set results. CHR 0x0A \<notin> set (Text r) \<and> CHR 0x0A \<notin> set (Error r)) \<longrightarrow>
        strings_Split (concat (map textLine results)) (CHR 0x0A) =
          map (\<lambda>r. ''['' @ fmt_f1 (StartTime (Segment r)) @ ''s-'' @ fmt_f1 (EndTime (Segment r)) @ ''s] '' @
                    (if Error r \<noteq> [] then ''ERROR: '' @ Error r else Text r)) results @ [[]])"
proof -
  have w: "written (OutputResults jn env a results) =
       [(jn (OutputDir a) ''transcription_results.json'', jsonData),
        (jn (OutputDir a) ''transcription_results.txt'', bom @ concat (map textLine results))]"
    and r: "returned (OutputResults jn env a results) = None"
    using assms by (simp_all add: OutputResults_def Let_def textLoop_concat)
  have l: "textLine r = ''['' @ fmt_f1 (StartTime (Segment r)) @ ''s-'' @ fmt_f1 (EndTime (Segment r)) @ ''s] '' @
                 (if Error r \<noteq> [] then ''ERROR: '' @ Error r else Text r) @ [CHR 0x0A]" for r
    by (simp add: textLine_def stamp_def)
  have b: "stamp r @ payload r = ''['' @ fmt_f1 (StartTime (Segment r)) @ ''s-'' @ fmt_f1 (EndTime (Segment r)) @ ''s] '' @
                    (if Error r \<noteq> [] then ''ERROR: '' @ Error r else Text r)" for r
    by (simp add: stamp_def payload_def)
  have s: "strings_Split (concat (map textLine results)) (CHR 0x0A) =
          map (\<lambda>r. ''['' @ fmt_f1 (StartTime (Segment r)) @ ''s-'' @ fmt_f1 (EndTime (Segment r)) @ ''s] '' @
                    (if Error r \<noteq> [] then ''ERROR: '' @ Error r else Text r)) results @ [[]]"
    if "\<forall>r\<in>set results. CHR 0x0A \<notin> set (Text r) \<and> CHR 0x0A \<notin> set (Error r)"
  proof -
    have "\<forall>r\<in>set results. CHR 0x0A \<notin> set (payload r)" using that by (simp add: payload_def)
    from split_report[OF this] show ?thesis unfolding b .
  qed
  have m: "map textLine results =
       map (\<lambda>r. ''['' @ fmt_f1 (StartTime (Segment r)) @ ''s-'' @ fmt_f1 (EndTime (Segment r)) @ ''s] '' @
                 (if Error r \<noteq> [] then ''ERROR: '' @ Error r else Text r) @ [CHR 0x0A]) results"
    using l by (intro map_cong) simp_all
  show ?thesis using w r m s by (simp only: bom_def) blast
qed

theorem report_text_file_witness:
  "json_MarshalIndent quietEnv quietResults = Inr ''[]'' \<and>
   os_WriteFile quietEnv (slashJoin (OutputDir demoAnalyzer) ''transcription_results.json'') ''[]'' = None \<and>
   os_WriteFile quietEnv (slashJoin (OutputDir demoAnalyzer) ''transcription_results.txt'')
     (bom @ concat (map textLine quietResults)) = None \<and>
   returned (OutputResults slashJoin quietEnv demoAnalyzer quietResults) = None \<and>
   written (OutputResults slashJoin quietEnv demoAnalyzer quietResults) =
     [(''out/transcription_results.json'', ''[]''),
      (''out/transcription_results.txt'',
       [CHR 0xEF, CHR 0xBB, CHR 0xBF] @ ''[0.0s-10.0s] hello'' @ [CHR 0x0A] @
       ''[10.0s-20.0s] hello'' @ [CHR 0x0A])] \<and>
   strings_Split (concat (map textLine quietResults)) (CHR 0x0A) =
     [''[0.0s-10.0s] hello'', ''[10.0s-20.0s] hello'', []]"
proof -
  have h1: "json_MarshalIndent quietEnv quietResults = Inr ''[]''" by (simp add: quietEnv_def)
  have h2: "os_WriteFile quietEnv (slashJoin (OutputDir demoAnalyzer) ''transcription_results.json'') ''[]'' = None"
    by (simp add: quietEnv_def)
  have h3: "os_WriteFile quietEnv (slashJoin (OutputDir demoAnalyzer) ''transcription_results.txt'')
     (bom @ concat (map textLine quietResults)) = None"
    by (simp add: quietEnv_def)
  have c: "concat (map textLine quietResults) =
     ''[0.0s-10.0s] hello'' @ [CHR 0x0A] @ ''[10.0s-20.0s] hello'' @ [CHR 0x0A]"
    by code_simp
  have p: "slashJoin (OutputDir demoAnalyzer) ''transcription_results.json'' = ''out/transcription_results.json''"
      "slashJoin (OutputDir demoAnalyzer) ''transcription_results.txt'' = ''out/transcription_results.txt''"
    by (simp_all add: slashJoin_def demoAnalyzer_def NewAudioAnalyzer_def)
  have s: "strings_Split (concat (map textLine quietResults)) (CHR 0x0A) =
     [''[0.0s-10.0s] hello'', ''[10.0s-20.0s] hello'', []]"
    unfolding c by simp
  note t = report_text_file[where jn = slashJoin and env = quietEnv and a = demoAnalyzer
      and results = quietResults and jsonData = "''[]''", OF h1 h2 h3]
  have "written (OutputResults slashJoin quietEnv demoAnalyzer quietResults) =
     [(''out/transcription_results.json'', ''[]''),
      (''out/transcription_results.txt'',
       [CHR 0xEF, CHR 0xBB, CHR 0xBF] @ ''[0.0s-10.0s] hello'' @ [CHR 0x0A] @
       ''[10.0s-20.0s] hello'' @ [CHR 0x0A])]"
    using t unfolding p c by (simp add: bom_def)
  then show ?thesis using h1 h2 h3 t s by blast
qed

text \<open>
  C9 as the claim words it fails on the results of a run in which the engine failed on
  one segment. The message of \<^verbatim>\<open>transcribeCpp\<close> holds a line feed, so the two results
  make three lines in the file. And the console does not get the content of the file:
  after a header it gets the bare text of a successful result, without time stamp and
  without line feed.
\<close>

theorem report_counterexample:
  "map (\<lambda>r. (Text r, Error r)) failingResults =
     [(''hello'', []),
      ([], ''C++ whisper transcription failed: exit status 1'' @ [CHR 0x0A] @ ''no input'')] \<and>
   written (OutputResults slashJoin quietEnv demoAnalyzer failingResults) =
     [(''out/transcription_results.json'', ''[]''),
      (''out/transcription_results.txt'',
       [CHR 0xEF, CHR 0xBB, CHR 0xBF] @ ''[0.0s-10.0s] hello'' @ [CHR 0x0A] @
       ''[10.0s-20.0s] ERROR: C++ whisper transcription failed: exit status 1'' @ [CHR 0x0A] @
       ''no input'' @ [CHR 0x0A])] \<and>
   strings_Split (concat (map textLine failingResults)) (CHR 0x0A) =
     [''[0.0s-10.0s] hello'',
      ''[10.0s-20.0s] ERROR: C++ whisper transcription failed: exit status 1'',
      ''no input'', []] \<and>
   rendered (console (OutputResults slashJoin quietEnv demoAnalyzer failingResults)) =
     Some ([CHR 0x0A] @ ''=== Transcription Results ==='' @ [CHR 0x0A] @ ''hello'' @
           ''[10.0s-20.0s] ERROR: C++ whisper transcription failed: exit status 1'' @ [CHR 0x0A] @
           ''no input'' @ [CHR 0x0A])"
  by code_simp


section \<open>Facts about the planner in binary64 arithmetic\<close>

lemma createSegment64_StartTime [simp]: "StartTime (createSegment64 jn a s e i) = s"
  by (simp add: createSegment64_def Let_def)

lemma createSegment64_EndTime [simp]: "EndTime (createSegment64 jn a s e i) = e"
  by (simp add: createSegment64_def Let_def)

lemma createSegment64_Duration [simp]: "Duration (createSegment64 jn a s e i) = fl64 (e - s)"
  by (simp add: createSegment64_def Let_def)

lemma splitInner64_step:
  "i < n \<Longrightarrow> splitInner64 jn a seg n sd i result =
     splitInner64 jn a seg n sd (i + 1) (result @ [subSegment64 jn a seg n sd i (length result)])"
  by (subst splitInner64.simps) (simp add: subSegment64_def Let_def)

lemma splitInner64_stop: "\<not> i < n \<Longrightarrow> splitInner64 jn a seg n sd i result = result"
  by (subst splitInner64.simps) simp

lemma splitInner64_closed:
  "splitInner64 jn a seg n sd i result =
     result @ map (\<lambda>k. subSegment64 jn a seg n sd (i + int k) (length result + k)) [0..<nat (n - i)]"
proof (induction "nat (n - i)" arbitrary: i result)
  case 0
  then have "\<not> i < n" by simp
  then show ?case using 0 by (simp add: splitInner64_stop)
next
  case (Suc m)
  then have lt: "i < n" and m: "m = nat (n - (i + 1))" by linarith+
  have nat_eq: "nat (n - i) = Suc m" using Suc by simp
  have "splitInner64 jn a seg n sd (i + 1) (result @ [subSegment64 jn a seg n sd i (length result)]) =
        (result @ [subSegment64 jn a seg n sd i (length result)]) @
        map (\<lambda>k. subSegment64 jn a seg n sd (i + 1 + int k)
                   (length (result @ [subSegment64 jn a seg n sd i (length result)]) + k)) [0..<m]"
    using Suc.hyps(1)[OF m] m by simp
  also have "\<dots> = result @ map (\<lambda>k. subSegment64 jn a seg n sd (i + int k) (length result + k)) [0..<Suc m]"
    by (simp add: upt_conv_Cons map_Suc_upt[symmetric] del: upt_Suc) (simp add: add.commute add.left_commute)
  finally show ?case using lt nat_eq by (simp add: splitInner64_step del: upt_Suc)
qed


lemma splitBody64_long:
  assumes "MaxSegmentDuration a < Duration seg"
    and "n = go_int (fl64 (Duration seg / MaxSegmentDuration a)) + 1"
    and "sd = fl64 (Duration seg / fl64 (of_int n))"
  shows "splitBody64 jn a seg result =
     result @ map (\<lambda>k. subSegment64 jn a seg n sd (int k) (length result + k)) [0..<nat n]"
  using assms by (simp add: splitBody64_def Let_def splitInner64_closed)




lemma round_half_even_of_int [simp]: "round_half_even (of_int m) = m"
  by (simp add: round_half_even_def Let_def)

lemma pow2_pos [simp]: "0 < pow2 e"
  by (simp add: pow2_def)

lemma pow2_nonneg [simp]: "0 \<le> pow2 e"
  by (simp add: pow2_def)

lemma fl64_zero [simp]: "fl64 0 = 0"
  by (simp add: fl64_def)




section \<open>The claims about the bounding pass\<close>

lemma silence64_value: "silence64 = 564005484583977 / 8796093022208"
  unfolding silence64_def by code_simp

lemma total64_value: "total64 = 1126031848237957 / 1099511627776"
  unfolding total64_def by code_simp

lemma raw64_at_input:
  "rawSegments64 jn a [564005484583977 / 8796093022208] (1126031848237957 / 1099511627776) =
     [createSegment64 jn a 0 (564005484583977 / 8796093022208) 0,
      createSegment64 jn a (564005484583977 / 8796093022208) (1126031848237957 / 1099511627776) 1]"
proof -
  have d1: "fl64 (564005484583977 / 8796093022208 - 0) = 564005484583977 / 8796093022208"
    by code_simp
  have d2: "fl64 (1126031848237957 / 1099511627776 - 564005484583977 / 8796093022208) =
            8444249301319679 / 8796093022208"
    by code_simp
  have w: "planWalk64 jn a [564005484583977 / 8796093022208] [] 0 =
           ([createSegment64 jn a 0 (564005484583977 / 8796093022208) 0],
            564005484583977 / 8796093022208)"
    unfolding planWalk64.simps d1 by simp
  show ?thesis unfolding rawSegments64_def w prod.case Let_def d2 by simp
qed

lemma first_segment_at_input:
  "length (splitBody64 jn demoAnalyzer
             (createSegment64 jn demoAnalyzer 0 (564005484583977 / 8796093022208) 0) []) = 2"
proof -
  let ?seg = "createSegment64 jn demoAnalyzer 0 (564005484583977 / 8796093022208) 0"
  have m: "MaxSegmentDuration demoAnalyzer = 60" by (simp add: demoAnalyzer_def NewAudioAnalyzer_def)
  have d: "Duration ?seg = 564005484583977 / 8796093022208"
    unfolding createSegment64_Duration by code_simp
  have long: "MaxSegmentDuration demoAnalyzer < Duration ?seg" unfolding d m by simp
  have n: "go_int (fl64 (Duration ?seg / MaxSegmentDuration demoAnalyzer)) + 1 = 2"
    unfolding d m by code_simp
  show ?thesis
    using splitBody64_long[OF long n[symmetric] refl, of jn "[]"] by simp
qed

lemma second_segment_at_input:
  assumes "length result = 2"
  shows "length (splitBody64 jn demoAnalyzer
             (createSegment64 jn demoAnalyzer (564005484583977 / 8796093022208)
                (1126031848237957 / 1099511627776) 1) result) = 18"
    and "interval (splitBody64 jn demoAnalyzer
             (createSegment64 jn demoAnalyzer (564005484583977 / 8796093022208)
                (1126031848237957 / 1099511627776) 1) result ! 5) =
         (8589208914325667 / 35184372088832, 2675067809913897 / 8796093022208)"
    and "Duration (splitBody64 jn demoAnalyzer
             (createSegment64 jn demoAnalyzer (564005484583977 / 8796093022208)
                (1126031848237957 / 1099511627776) 1) result ! 5) =
         2111062325329921 / 35184372088832"
    and "Duration (splitBody64 jn demoAnalyzer
             (createSegment64 jn demoAnalyzer (564005484583977 / 8796093022208)
                (1126031848237957 / 1099511627776) 1) result ! 4) =
         2111062325329919 / 35184372088832"
proof -
  let ?seg = "createSegment64 jn demoAnalyzer (564005484583977 / 8796093022208)
                (1126031848237957 / 1099511627776) 1"
  let ?sd = "8444249301319679 / 140737488355328 :: real"
  have m: "MaxSegmentDuration demoAnalyzer = 60" by (simp add: demoAnalyzer_def NewAudioAnalyzer_def)
  have d: "Duration ?seg = 8444249301319679 / 8796093022208"
    unfolding createSegment64_Duration by code_simp
  have long: "MaxSegmentDuration demoAnalyzer < Duration ?seg" unfolding d m by simp
  have n: "go_int (fl64 (Duration ?seg / MaxSegmentDuration demoAnalyzer)) + 1 = 16"
    unfolding d m by code_simp
  have sd: "fl64 (Duration ?seg / fl64 (of_int 16)) = ?sd"
    unfolding d by code_simp
  have body: "splitBody64 jn demoAnalyzer ?seg result =
      result @ map (\<lambda>k. subSegment64 jn demoAnalyzer ?seg 16 ?sd (int k) (length result + k)) [0..<16]"
    using splitBody64_long[OF long n[symmetric] sd[symmetric], of jn result] by simp
  show "length (splitBody64 jn demoAnalyzer ?seg result) = 18"
    unfolding body using assms by simp
  have b2: "fl64 (564005484583977 / 8796093022208 + fl64 (fl64 2 * ?sd)) =
            1619536647248937 / 8796093022208"
    by code_simp
  have b3: "fl64 (564005484583977 / 8796093022208 + fl64 (fl64 3 * ?sd)) =
            8589208914325667 / 35184372088832"
    by code_simp
  have b4: "fl64 (564005484583977 / 8796093022208 + fl64 (fl64 4 * ?sd)) =
            2675067809913897 / 8796093022208"
    by code_simp
  have w3: "fl64 (2675067809913897 / 8796093022208 - 8589208914325667 / 35184372088832) =
            2111062325329921 / 35184372088832"
    by code_simp
  have w2: "fl64 (8589208914325667 / 35184372088832 - 1619536647248937 / 8796093022208) =
            2111062325329919 / 35184372088832"
    by code_simp
  have at: "splitBody64 jn demoAnalyzer ?seg result ! (length result + k) =
            subSegment64 jn demoAnalyzer ?seg 16 ?sd (int k) (length result + k)" if "k < 16" for k
    unfolding body using that by (simp add: nth_append_length_plus del: upt_Suc)
  have five: "(5::nat) = length result + 3" and four: "(4::nat) = length result + 2"
    using assms by simp_all
  have i3: "int 3 = 3" and i2: "int 2 = 2" and i16: "(3::int) \<noteq> 16 - 1" "(2::int) \<noteq> 16 - 1"
    and s3: "(3::int) + 1 = 4" and s2: "(2::int) + 1 = 3"
    by simp_all
  have part3: "subSegment64 jn demoAnalyzer ?seg 16 ?sd 3 idx =
      createSegment64 jn demoAnalyzer (8589208914325667 / 35184372088832)
        (2675067809913897 / 8796093022208) idx" for idx
    unfolding subSegment64_def createSegment64_StartTime
    by (simp only: i16 if_False s3 of_int_numeral b3 b4)
  have part2: "subSegment64 jn demoAnalyzer ?seg 16 ?sd 2 idx =
      createSegment64 jn demoAnalyzer (1619536647248937 / 8796093022208)
        (8589208914325667 / 35184372088832) idx" for idx
    unfolding subSegment64_def createSegment64_StartTime
    by (simp only: i16 if_False s2 of_int_numeral b2 b3)
  have p3: "splitBody64 jn demoAnalyzer ?seg result ! 5 =
      createSegment64 jn demoAnalyzer (8589208914325667 / 35184372088832)
        (2675067809913897 / 8796093022208) (length result + 3)"
  proof -
    have "splitBody64 jn demoAnalyzer ?seg result ! 5 =
          splitBody64 jn demoAnalyzer ?seg result ! (length result + 3)"
      using five by simp
    also have "\<dots> = subSegment64 jn demoAnalyzer ?seg 16 ?sd (int 3) (length result + 3)"
      by (rule at) simp
    also have "\<dots> = createSegment64 jn demoAnalyzer (8589208914325667 / 35184372088832)
        (2675067809913897 / 8796093022208) (length result + 3)"
      using part3 by simp
    finally show ?thesis .
  qed
  have p2: "splitBody64 jn demoAnalyzer ?seg result ! 4 =
      createSegment64 jn demoAnalyzer (1619536647248937 / 8796093022208)
        (8589208914325667 / 35184372088832) (length result + 2)"
  proof -
    have "splitBody64 jn demoAnalyzer ?seg result ! 4 =
          splitBody64 jn demoAnalyzer ?seg result ! (length result + 2)"
      using four by simp
    also have "\<dots> = subSegment64 jn demoAnalyzer ?seg 16 ?sd (int 2) (length result + 2)"
      by (rule at) simp
    also have "\<dots> = createSegment64 jn demoAnalyzer (1619536647248937 / 8796093022208)
        (8589208914325667 / 35184372088832) (length result + 2)"
      using part2 by simp
    finally show ?thesis .
  qed
  show "interval (splitBody64 jn demoAnalyzer ?seg result ! 5) =
         (8589208914325667 / 35184372088832, 2675067809913897 / 8796093022208)"
    unfolding p3 interval_def createSegment64_StartTime createSegment64_EndTime ..
  show "Duration (splitBody64 jn demoAnalyzer ?seg result ! 5) = 2111062325329921 / 35184372088832"
    unfolding p3 createSegment64_Duration w3 ..
  show "Duration (splitBody64 jn demoAnalyzer ?seg result ! 4) = 2111062325329919 / 35184372088832"
    unfolding p2 createSegment64_Duration w2 ..
qed

text \<open>
  C1 does not hold of the code. \<^verbatim>\<open>MaxSegmentDuration\<close> is documented as the greatest
  length of a segment and \<^verbatim>\<open>splitLongSegments\<close> as splitting the segments that are too
  long, but the parts are cut at \<open>start + i * splitDuration\<close> in rounded arithmetic. With
  one silence point at 64.12 seconds, a total of 1024.12 seconds and the maximum of 60
  seconds, the plan has 18 segments, and the one at position 5 runs from
  244.11999999999998 to 304.12 with a duration of 60.00000000000003 seconds, more than
  the maximum.
\<close>

theorem rounded_part_exceeds_maximum:
  "(case CreateSegments64 slashJoin demoAnalyzer (Inr [silence64]) (Inr total64) of
      Inl err \<Rightarrow> (0, (0, 0), 0)
    | Inr plan \<Rightarrow> (length plan, interval (plan ! 5), Duration (plan ! 5))) =
     (18, (8589208914325667 / 35184372088832, 2675067809913897 / 8796093022208),
      2111062325329921 / 35184372088832) \<and>
   MaxSegmentDuration demoAnalyzer < 2111062325329921 / 35184372088832"
proof -
  let ?first = "splitBody64 slashJoin demoAnalyzer
      (createSegment64 slashJoin demoAnalyzer 0 (564005484583977 / 8796093022208) 0) []"
  have plan: "splitLongSegments64 slashJoin demoAnalyzer
      (rawSegments64 slashJoin demoAnalyzer [silence64] total64) =
    splitBody64 slashJoin demoAnalyzer
      (createSegment64 slashJoin demoAnalyzer (564005484583977 / 8796093022208)
         (1126031848237957 / 1099511627776) 1) ?first"
    by (simp add: silence64_value total64_value raw64_at_input splitLongSegments64_def)
  note s = second_segment_at_input[OF first_segment_at_input, of slashJoin slashJoin]
  have c: "CreateSegments64 slashJoin demoAnalyzer (Inr [silence64]) (Inr total64) =
      Inr (splitBody64 slashJoin demoAnalyzer
        (createSegment64 slashJoin demoAnalyzer (564005484583977 / 8796093022208)
           (1126031848237957 / 1099511627776) 1) ?first)"
    by (simp add: CreateSegments64_def plan)
  have m: "MaxSegmentDuration demoAnalyzer < 2111062325329921 / 35184372088832"
    by (simp add: demoAnalyzer_def NewAudioAnalyzer_def)
  show ?thesis
    unfolding c sum.case s(1) s(2) s(3) using m by (intro conjI refl)
qed







end
